theory Spec2Isabelle
  imports Complex_Main
begin

section \<open>Delay discounting task with staircase designs\<close>

text \<open>
  A shallow embedding of \<^verbatim>\<open>dd_psychopy_non-ado.py\<close>: the trial routine
  \<^verbatim>\<open>run_trial\<close>, the practice loop, the main loop with its staircase update, and
  the data frame that is written to the output file after every trial.

  Numbers. The rewards and the step size are Python numbers: \<^verbatim>\<open>400\<close> and
  \<^verbatim>\<open>200\<close> are integers, \<^verbatim>\<open>delta / 2\<close> is a binary64 float. They are
  modelled as \<^typ>\<open>rat\<close>. Every value the staircase computes is an integer multiple of
  \<open>1/32\<close> below 800 in magnitude (lemma \<open>main_inv_exact\<close> below), so the binary64
  operations of the source are exact and agree with the rational ones. The delay
  \<^verbatim>\<open>4.3\<close> is carried as the decimal \<open>43/10\<close>; the program copies it and never
  computes with it. Reaction times and posterior summaries are opaque numbers supplied by
  the collaborators.
\<close>

subsection \<open>Designs, key lists, the trial routine\<close>

record dd_design =
  t_ss :: rat
  t_ll :: rat
  r_ss :: rat
  r_ll :: rat


definition KEYS_LEFT :: "string list" where
  "KEYS_LEFT = [''left'', ''z'', ''f'']"

definition KEYS_RIGHT :: "string list" where
  "KEYS_RIGHT = [''right'', ''slash'', ''j'']"

text \<open>
  What one call of \<^verbatim>\<open>run_trial\<close> takes from outside: the draw of
  \<^verbatim>\<open>np.random.randint(0, 2)\<close> (0 or 1, so a \<^typ>\<open>bool\<close>: \<open>True\<close> is 1), the
  first key returned by \<^verbatim>\<open>event.waitKeys\<close>, and the clock reading.
\<close>

record presenter_io =
  randint :: bool
  pressed :: string
  elapsed :: rat

text \<open>\<^verbatim>\<open>direction = np.random.randint(0, 2) * 2 - 1\<close>\<close>

definition direction :: "presenter_io \<Rightarrow> int" where
  "direction io = (if randint io then 1 else 0) * 2 - 1"




text \<open>
  \<^verbatim>\<open>run_trial\<close> returns \<^verbatim>\<open>(is_ll_on_left, key_left, response, rt)\<close>. The response is
  \<^verbatim>\<open>int((key_left and is_ll_on_left) or (not key_left and not is_ll_on_left))\<close>:
  Python's \<^verbatim>\<open>and\<close>, \<^verbatim>\<open>or\<close> and \<^verbatim>\<open>not\<close> on integers test them against zero.
\<close>

definition run_trial :: "dd_design \<Rightarrow> presenter_io \<Rightarrow> int \<times> int \<times> int \<times> rat" where
  "run_trial d io =
     (let is_ll_on_left = (if direction io = - 1 then 1 else 0 :: int);
          key_left = (if pressed io \<in> set KEYS_LEFT then 1 else 0 :: int);
          response = (if (key_left \<noteq> 0 \<and> is_ll_on_left \<noteq> 0) \<or>
                         (\<not> key_left \<noteq> 0 \<and> \<not> is_ll_on_left \<noteq> 0)
                      then 1 else 0 :: int)
      in (is_ll_on_left, key_left, response, elapsed io))"

subsection \<open>The data frame and the output file\<close>

datatype cell = CStr string | CInt int | CNum rat

text \<open>
  A \<^verbatim>\<open>pd.Series\<close> built from a dict literal: labels with values, in the order written.
\<close>

type_synonym series = "(string \<times> cell) list"

text \<open>
  A data frame: the column labels in order, and one row per appended series. A row maps
  a label to its value; \<open>None\<close> is pandas' missing value (NaN).
\<close>

record data_frame =
  columns :: "string list"
  rows :: "(string \<rightharpoonup> cell) list"

text \<open>
  \<^verbatim>\<open>df.append(series, ignore_index=True)\<close> (pandas before 2.0): the labels of the
  series that are not yet columns are added after the existing columns, the old rows
  get the missing value there, and the series becomes the last row, with the missing
  value at every column it has no label for. Where pandas sorts the added labels, the
  result is the same for this program: the only labels ever added are
  \<^verbatim>\<open>sd_k\<close>, \<^verbatim>\<open>sd_tau\<close>, written in sorted order.
\<close>

definition df_append :: "data_frame \<Rightarrow> series \<Rightarrow> data_frame" where
  "df_append df other =
     (let idx_diff = filter (\<lambda>k. k \<notin> set (columns df)) (map fst other);
          combined_columns = columns df @ idx_diff
      in \<lparr>columns = combined_columns, rows = rows df @ [map_of other]\<rparr>)"

text \<open>
  The file written by \<^verbatim>\<open>df.to_csv(path, index=False)\<close>: the header line and one line
  per row, the fields in column order; \<open>None\<close> is an empty field. The file is rewritten
  in full by every call.
\<close>

record csv_file =
  header :: "string list"
  body :: "cell option list list"

definition to_csv :: "data_frame \<Rightarrow> csv_file" where
  "to_csv df = \<lparr>header = columns df, body = map (\<lambda>r. map r (columns df)) (rows df)\<rparr>"

text \<open>The \<^verbatim>\<open>columns\<close> list given to the empty \<^verbatim>\<open>df_data\<close>.\<close>

definition columns_decl :: "string list" where
  "columns_decl =
     [''block'', ''trial'',
      ''t_ss'', ''t_ll'', ''r_ss'', ''r_ll'',
      ''is_ll_on_left'', ''key_left'', ''response'', ''rt'',
      ''mean_k'', ''mean_tau'']"

subsection \<open>Collaborators, session state, errors\<close>

text \<open>
  The estimation engine and the participant are outside the program. A collaborator call
  that raises is \<open>None\<close>. The engine's state is a type parameter; the practice designs
  drawn by \<^verbatim>\<open>engine.get_design('random')\<close> and the presenter's inputs are given per
  trial index.
\<close>

record 'e collaborators =
  get_design :: "nat \<Rightarrow> dd_design option"
  prac_io :: "nat \<Rightarrow> presenter_io option"
  main_io :: "nat \<Rightarrow> presenter_io option"
  update :: "'e \<Rightarrow> dd_design \<Rightarrow> int \<Rightarrow> 'e option"
  post_mean :: "'e \<Rightarrow> rat \<times> rat"
  post_sd :: "'e \<Rightarrow> rat \<times> rat"

datatype error = IndexError | NameError | CollaboratorError

text \<open>
  The module-level variables the two loops read and write, and the file at
  \<^verbatim>\<open>path_output\<close> (\<open>None\<close>: not written yet). A variable that is not bound yet
  is \<open>None\<close>; reading it raises \<^verbatim>\<open>NameError\<close>.
\<close>

record 'e session =
  df_data :: data_frame
  path_output :: "csv_file option"
  engine :: 'e
  design :: "dd_design option"
  delta :: rat
  response :: "int option"

definition delays :: "rat list" where
  "delays = [1, 2, 43 / 10, 26, 52, 156, 520]"

definition init_session :: "'e \<Rightarrow> 'e session" where
  "init_session e0 =
     \<lparr>df_data = \<lparr>columns = columns_decl, rows = []\<rparr>,
      path_output = None,
      engine = e0,
      design = None,
      delta = 200,
      response = None\<rparr>"

subsection \<open>The loops\<close>

text \<open>
  \<^verbatim>\<open>for trial in range(n)\<close>: the body runs for 0, 1, ... in turn; an exception in the
  body ends the program, leaving the state (and the file) as it is at that moment.
\<close>

definition py_range :: "int \<Rightarrow> nat list" where
  "py_range n = [0..<nat n]"

fun for_loop :: "(nat \<Rightarrow> 's \<Rightarrow> error option \<times> 's) \<Rightarrow> nat list \<Rightarrow> 's \<Rightarrow> error option \<times> 's" where
  "for_loop b [] s = (None, s)"
| "for_loop b (t # ts) s =
     (case b t s of
        (Some e, s') \<Rightarrow> (Some e, s')
      | (None, s') \<Rightarrow> for_loop b ts s')"

text \<open>The series appended by a practice trial (ten labels).\<close>

definition prac_series :: "nat \<Rightarrow> dd_design \<Rightarrow> int \<times> int \<times> int \<times> rat \<Rightarrow> series" where
  "prac_series trial d out =
     (case out of (is_ll_on_left, key_left, resp, rt) \<Rightarrow>
       [(''block'', CStr ''prac''),
        (''trial'', CInt (int trial + 1)),
        (''t_ss'', CNum (t_ss d)),
        (''t_ll'', CNum (t_ll d)),
        (''r_ss'', CNum (r_ss d)),
        (''r_ll'', CNum (r_ll d)),
        (''is_ll_on_left'', CInt is_ll_on_left),
        (''key_left'', CInt key_left),
        (''response'', CInt resp),
        (''rt'', CNum rt)])"

text \<open>The series appended by a main trial (fourteen labels).\<close>

definition main_series ::
  "nat \<Rightarrow> dd_design \<Rightarrow> int \<times> int \<times> int \<times> rat \<Rightarrow> rat \<times> rat \<Rightarrow> rat \<times> rat \<Rightarrow> series" where
  "main_series trial d out pm psd =
     (case out of (is_ll_on_left, key_left, resp, rt) \<Rightarrow>
       [(''block'', CStr ''main''),
        (''trial'', CInt (int trial + 1)),
        (''t_ss'', CNum (t_ss d)),
        (''t_ll'', CNum (t_ll d)),
        (''r_ss'', CNum (r_ss d)),
        (''r_ll'', CNum (r_ll d)),
        (''is_ll_on_left'', CInt is_ll_on_left),
        (''key_left'', CInt key_left),
        (''response'', CInt resp),
        (''rt'', CNum rt),
        (''mean_k'', CNum (fst pm)),
        (''mean_tau'', CNum (snd pm)),
        (''sd_k'', CNum (fst psd)),
        (''sd_tau'', CNum (snd psd))])"

text \<open>
  The append and the \<^verbatim>\<open>to_csv\<close> that end the body of both loops.
\<close>

definition append_and_save :: "series \<Rightarrow> 'e session \<Rightarrow> 'e session" where
  "append_and_save row s =
     (let df = df_append (df_data s) row
      in s\<lparr>df_data := df, path_output := Some (to_csv df)\<rparr>)"

text \<open>The body of the practice loop.\<close>

definition prac_trial :: "'e collaborators \<Rightarrow> nat \<Rightarrow> 'e session \<Rightarrow> error option \<times> 'e session" where
  "prac_trial c trial s =
     (case get_design c trial of
        None \<Rightarrow> (Some CollaboratorError, s)
      | Some d \<Rightarrow>
          (let s1 = s\<lparr>design := Some d\<rparr>
           in case prac_io c trial of
                None \<Rightarrow> (Some CollaboratorError, s1)
              | Some io \<Rightarrow>
                  (let out = run_trial d io;
                       s2 = s1\<lparr>response := Some (fst (snd (snd out)))\<rparr>
                   in (None, append_and_save (prac_series trial d out) s2))))"

text \<open>
  The staircase update at the head of the main loop's body: from the trial index and
  the variables \<^verbatim>\<open>design\<close>, \<^verbatim>\<open>delta\<close>, \<^verbatim>\<open>response\<close> to the new
  \<^verbatim>\<open>design\<close> and \<^verbatim>\<open>delta\<close>. \<^verbatim>\<open>delays[trial // 6]\<close> raises
  \<^verbatim>\<open>IndexError\<close> past the end of the list.
\<close>

definition staircase ::
  "nat \<Rightarrow> dd_design option \<Rightarrow> rat \<Rightarrow> int option \<Rightarrow> error + dd_design \<times> rat" where
  "staircase trial dsg dlt resp =
     (if trial mod 6 = 0 then
        (if trial div 6 < length delays
         then Inr (\<lparr>t_ss = 0, t_ll = delays ! (trial div 6), r_ss = 400, r_ll = 800\<rparr>, 200)
         else Inl IndexError)
      else
        (case resp of
           None \<Rightarrow> Inl NameError
         | Some r \<Rightarrow>
             (case dsg of
                None \<Rightarrow> Inl NameError
              | Some d \<Rightarrow>
                  Inr (if r = 1 then d\<lparr>r_ss := r_ss d + dlt\<rparr> else d\<lparr>r_ss := r_ss d - dlt\<rparr>,
                       dlt / 2))))"

text \<open>The body of the main loop.\<close>

definition main_trial :: "'e collaborators \<Rightarrow> nat \<Rightarrow> 'e session \<Rightarrow> error option \<times> 'e session" where
  "main_trial c trial s =
     (case staircase trial (design s) (delta s) (response s) of
        Inl e \<Rightarrow> (Some e, s)
      | Inr (d, dlt) \<Rightarrow>
          (let s1 = s\<lparr>design := Some d, delta := dlt\<rparr>
           in case main_io c trial of
                None \<Rightarrow> (Some CollaboratorError, s1)
              | Some io \<Rightarrow>
                  (let out = run_trial d io;
                       resp = fst (snd (snd out));
                       s2 = s1\<lparr>response := Some resp\<rparr>
                   in case update c (engine s2) d resp of
                        None \<Rightarrow> (Some CollaboratorError, s2)
                      | Some e' \<Rightarrow>
                          (let s3 = s2\<lparr>engine := e'\<rparr>
                           in (None,
                               append_and_save
                                 (main_series trial d out (post_mean c e') (post_sd c e'))
                                 s3)))))"

text \<open>The practice block.\<close>

definition practice :: "'e collaborators \<Rightarrow> int \<Rightarrow> 'e session \<Rightarrow> error option \<times> 'e session" where
  "practice c n_prac s = for_loop (prac_trial c) (py_range n_prac) s"

text \<open>The main block.\<close>

definition main_block :: "'e collaborators \<Rightarrow> int \<Rightarrow> 'e session \<Rightarrow> error option \<times> 'e session" where
  "main_block c n_trial s = for_loop (main_trial c) (py_range n_trial) s"

text \<open>
  The script from the empty data frame on: the practice block, then the main block.
\<close>

definition run_session :: "'e collaborators \<Rightarrow> int \<Rightarrow> int \<Rightarrow> 'e \<Rightarrow> error option \<times> 'e session" where
  "run_session c n_prac n_trial e0 =
     (case practice c n_prac (init_session e0) of
        (Some e, s) \<Rightarrow> (Some e, s)
      | (None, s) \<Rightarrow> main_block c n_trial s)"

text \<open>What the output file holds: its lines after the header, none when there is no file.\<close>

definition persisted :: "'e session \<Rightarrow> cell option list list" where
  "persisted s = (case path_output s of None \<Rightarrow> [] | Some f \<Rightarrow> body f)"

subsection \<open>What holds after a main trial\<close>

text \<open>
  The state after the main trial with index \<open>i\<close> has ended: both variables are bound,
  the design is the one of the current block, the step size has been halved \<open>i mod 6\<close>
  times, the reward is within the reach of the steps taken so far, and the last row of
  the data frame records this design and this response.
\<close>

definition main_inv :: "nat \<Rightarrow> 'e session \<Rightarrow> bool" where
  "main_inv i s =
     (case design s of
        None \<Rightarrow> False
      | Some d \<Rightarrow>
          (case response s of
             None \<Rightarrow> False
           | Some r \<Rightarrow>
               (r = 0 \<or> r = 1) \<and>
               t_ss d = 0 \<and> r_ll d = 800 \<and>
               i div 6 < length delays \<and> t_ll d = delays ! (i div 6) \<and>
               delta s = 200 / 2 ^ (i mod 6) \<and>
               \<bar>r_ss d - 400\<bar> \<le> 400 - 400 / 2 ^ (i mod 6) \<and>
               r_ss d * 2 ^ (i mod 6) \<in> \<int> \<and>
               rows (df_data s) \<noteq> [] \<and>
               last (rows (df_data s)) ''block'' = Some (CStr ''main'') \<and>
               last (rows (df_data s)) ''t_ll'' = Some (CNum (t_ll d)) \<and>
               last (rows (df_data s)) ''r_ss'' = Some (CNum (r_ss d)) \<and>
               last (rows (df_data s)) ''r_ll'' = Some (CNum (r_ll d)) \<and>
               last (rows (df_data s)) ''response'' = Some (CInt r)))"

subsection \<open>Test doubles\<close>

text \<open>
  A scripted presenter and a stub engine: the coin always puts the larger-later option
  on the right, the key of trial \<open>t\<close> is \<open>keys t\<close>, the practice design is fixed, and
  the engine's state is the list of the observations it was updated with.
\<close>

definition scripted :: "(nat \<Rightarrow> string) \<Rightarrow> (dd_design \<times> int) list collaborators" where
  "scripted keys =
     \<lparr>get_design = (\<lambda>t. Some \<lparr>t_ss = 0, t_ll = 52, r_ss = 25 / 2, r_ll = 800\<rparr>),
      prac_io = (\<lambda>t. Some \<lparr>randint = True, pressed = keys t, elapsed = 1\<rparr>),
      main_io = (\<lambda>t. Some \<lparr>randint = True, pressed = keys t, elapsed = 1\<rparr>),
      update = (\<lambda>e d r. Some (e @ [(d, r)])),
      post_mean = (\<lambda>e. (of_nat (length e), 1)),
      post_sd = (\<lambda>e. (1 / 2, 1 / 3))\<rparr>"

subsection \<open>Reading the table\<close>

text \<open>The rows appended since an earlier state, and one column of a list of rows.\<close>

definition rows_since :: "'e session \<Rightarrow> 'e session \<Rightarrow> (string \<rightharpoonup> cell) list" where
  "rows_since s0 s = drop (length (rows (df_data s0))) (rows (df_data s))"

definition column :: "string \<Rightarrow> (string \<rightharpoonup> cell) list \<Rightarrow> cell option list" where
  "column l R = map (\<lambda>r. r l) R"

text \<open>
  The columns of the persisted output as the specification lists them, and the four
  posterior columns among them.
\<close>

definition spec_columns :: "string list" where
  "spec_columns =
     [''block'', ''trial'', ''t_ss'', ''t_ll'', ''r_ss'', ''r_ll'',
      ''is_ll_on_left'', ''key_left'', ''response'', ''rt'',
      ''mean_k'', ''mean_tau'', ''sd_k'', ''sd_tau'']"

definition posterior_labels :: "string list" where
  "posterior_labels = [''mean_k'', ''mean_tau'', ''sd_k'', ''sd_tau'']"

text \<open>A row has a value at each of the labels, or the missing value at each of them.\<close>

definition populated :: "string list \<Rightarrow> (string \<rightharpoonup> cell) \<Rightarrow> bool" where
  "populated ls r = list_all (\<lambda>l. r l \<noteq> None) ls"

definition blank :: "string list \<Rightarrow> (string \<rightharpoonup> cell) \<Rightarrow> bool" where
  "blank ls r = list_all (\<lambda>l. r l = None) ls"

text \<open>
  A practice row: marked \<^verbatim>\<open>prac\<close>, the first ten columns filled, the posterior columns
  missing. A main row: marked \<^verbatim>\<open>main\<close>, all fourteen columns filled.
\<close>

definition is_prac_row :: "(string \<rightharpoonup> cell) \<Rightarrow> bool" where
  "is_prac_row r =
     (r ''block'' = Some (CStr ''prac'') \<and> populated (take 10 spec_columns) r \<and>
      blank posterior_labels r)"

definition is_main_row :: "(string \<rightharpoonup> cell) \<Rightarrow> bool" where
  "is_main_row r = (r ''block'' = Some (CStr ''main'') \<and> populated spec_columns r)"

text \<open>
  A presenter that raises at the practice trial \<open>kp\<close> and at the main trial \<open>km\<close>
  (\<open>None\<close>: at no trial of that phase).
\<close>

definition presenter_fails ::
  "nat option \<Rightarrow> nat option \<Rightarrow> 'e collaborators \<Rightarrow> 'e collaborators" where
  "presenter_fails kp km c =
     c\<lparr>prac_io := (\<lambda>t. if Some t = kp then None else prac_io c t),
       main_io := (\<lambda>t. if Some t = km then None else main_io c t)\<rparr>"

section \<open>Properties\<close>

subsection \<open>Loops and rows\<close>

lemma for_loop_append:
  "for_loop b (xs @ ys) s =
     (case for_loop b xs s of (Some e, s') \<Rightarrow> (Some e, s') | (None, s') \<Rightarrow> for_loop b ys s')"
  by (induction xs arbitrary: s) (auto split: prod.splits option.splits)

lemma for_loop_snoc:
  "for_loop b (xs @ [t]) s =
     (case for_loop b xs s of (Some e, s') \<Rightarrow> (Some e, s') | (None, s') \<Rightarrow> b t s')"
  by (simp add: for_loop_append split: prod.splits option.splits)

lemma for_loop_Suc:
  "for_loop b [0..<Suc t] s =
     (case for_loop b [0..<t] s of (Some e, s') \<Rightarrow> (Some e, s') | (None, s') \<Rightarrow> b t s')"
  by (simp add: for_loop_snoc)

lemma for_loop_SucD:
  "for_loop b [0..<Suc t] s0 = (None, s) \<Longrightarrow>
     \<exists>s1. for_loop b [0..<t] s0 = (None, s1) \<and> b t s1 = (None, s)"
  unfolding for_loop_Suc by (auto split: prod.splits option.splits)

lemma for_loop_prefix:
  "for_loop b [0..<n] s0 = (None, s') \<Longrightarrow> t \<le> n \<Longrightarrow> \<exists>s. for_loop b [0..<t] s0 = (None, s)"
proof (induction n arbitrary: s')
  case 0
  then show ?case by simp
next
  case (Suc n)
  show ?case
  proof (cases "t = Suc n")
    case True
    with Suc.prems show ?thesis by blast
  next
    case False
    with Suc.prems have "t \<le> n" by simp
    moreover from Suc.prems(1) obtain s where "for_loop b [0..<n] s0 = (None, s)"
      by (auto simp: for_loop_snoc split: prod.splits option.splits)
    ultimately show ?thesis using Suc.IH by blast
  qed
qed

lemma main_trial_ok:
  assumes "main_trial c t s = (None, s')"
  obtains d dlt io e' where
    "staircase t (design s) (delta s) (response s) = Inr (d, dlt)"
    "main_io c t = Some io"
    "update c (engine s) d (fst (snd (snd (run_trial d io)))) = Some e'"
    "s' = append_and_save (main_series t d (run_trial d io) (post_mean c e') (post_sd c e'))
            (s\<lparr>design := Some d, delta := dlt,
               response := Some (fst (snd (snd (run_trial d io)))), engine := e'\<rparr>)"
  using assms
  by (auto simp: main_trial_def Let_def split: sum.splits option.splits prod.splits)

lemma main_trial_err:
  "main_trial c t s = (Some e, s') \<Longrightarrow> df_data s' = df_data s \<and> path_output s' = path_output s \<and> engine s' = engine s"
  by (auto simp: main_trial_def Let_def split: sum.splits option.splits prod.splits)

lemma prac_trial_ok:
  assumes "prac_trial c t s = (None, s')"
  obtains d io where
    "get_design c t = Some d"
    "prac_io c t = Some io"
    "s' = append_and_save (prac_series t d (run_trial d io))
            (s\<lparr>design := Some d, response := Some (fst (snd (snd (run_trial d io))))\<rparr>)"
  using assms
  by (auto simp: prac_trial_def Let_def split: sum.splits option.splits prod.splits)

lemma prac_trial_err:
  "prac_trial c t s = (Some e, s') \<Longrightarrow> df_data s' = df_data s \<and> path_output s' = path_output s \<and> engine s' = engine s \<and> e = CollaboratorError"
  by (auto simp: prac_trial_def Let_def split: sum.splits option.splits prod.splits)

lemma run_trial_resp01:
  "fst (snd (snd (run_trial d io))) = 0 \<or> fst (snd (snd (run_trial d io))) = 1"
  by (simp add: run_trial_def Let_def)

lemma rows_append_and_save [simp]:
  "rows (df_data (append_and_save row s)) = rows (df_data s) @ [map_of row]"
  by (simp add: append_and_save_def df_append_def Let_def)

lemma path_append_and_save [simp]:
  "path_output (append_and_save row s) = Some (to_csv (df_data (append_and_save row s)))"
  by (simp add: append_and_save_def Let_def)

lemma other_append_and_save [simp]:
  "design (append_and_save row s) = design s"
  "delta (append_and_save row s) = delta s"
  "response (append_and_save row s) = response s"
  "engine (append_and_save row s) = engine s"
  by (simp_all add: append_and_save_def Let_def)

lemma main_series_lookup [simp]:
  "map_of (main_series t d out pm psd) ''block'' = Some (CStr ''main'')"
  "map_of (main_series t d out pm psd) ''trial'' = Some (CInt (int t + 1))"
  "map_of (main_series t d out pm psd) ''t_ll'' = Some (CNum (t_ll d))"
  "map_of (main_series t d out pm psd) ''r_ss'' = Some (CNum (r_ss d))"
  "map_of (main_series t d out pm psd) ''r_ll'' = Some (CNum (r_ll d))"
  "map_of (main_series t d out pm psd) ''t_ss'' = Some (CNum (t_ss d))"
  "map_of (main_series t d out pm psd) ''response'' = Some (CInt (fst (snd (snd out))))"
  "map_of (main_series t d out pm psd) ''mean_k'' = Some (CNum (fst pm))"
  "map_of (main_series t d out pm psd) ''mean_tau'' = Some (CNum (snd pm))"
  "map_of (main_series t d out pm psd) ''sd_k'' = Some (CNum (fst psd))"
  "map_of (main_series t d out pm psd) ''sd_tau'' = Some (CNum (snd psd))"
  by (simp_all add: main_series_def case_prod_beta)

lemma main_inv_step0:
  assumes "i mod 6 = 0" and "main_trial c i s = (None, s')"
  shows "main_inv i s'"
proof -
  from assms(2) obtain d dlt io e' where
    st: "staircase i (design s) (delta s) (response s) = Inr (d, dlt)" and
    s': "s' = append_and_save (main_series i d (run_trial d io) (post_mean c e') (post_sd c e'))
            (s\<lparr>design := Some d, delta := dlt,
               response := Some (fst (snd (snd (run_trial d io)))), engine := e'\<rparr>)"
    by (rule main_trial_ok)
  from st assms(1) have "i div 6 < length delays"
    and "d = \<lparr>t_ss = 0, t_ll = delays ! (i div 6), r_ss = 400, r_ll = 800\<rparr>" and "dlt = 200"
    by (auto simp: staircase_def split: if_splits)
  then show ?thesis
    using run_trial_resp01 [of d io] assms(1) by (auto simp: main_inv_def s')
qed

lemma main_inv_stepS:
  assumes "Suc i mod 6 \<noteq> 0" and "main_inv i s" and "main_trial c (Suc i) s = (None, s')"
  shows "main_inv (Suc i) s'"
proof -
  from assms(3) obtain d dlt io e' where
    st: "staircase (Suc i) (design s) (delta s) (response s) = Inr (d, dlt)" and
    s': "s' = append_and_save (main_series (Suc i) d (run_trial d io) (post_mean c e') (post_sd c e'))
            (s\<lparr>design := Some d, delta := dlt,
               response := Some (fst (snd (snd (run_trial d io)))), engine := e'\<rparr>)"
    by (rule main_trial_ok)
  from assms(2) obtain d0 r0 where d0: "design s = Some d0" and r0: "response s = Some r0"
    by (auto simp: main_inv_def split: option.splits)
  from assms(1) have dv: "Suc i div 6 = i div 6" and md: "Suc i mod 6 = Suc (i mod 6)"
    by presburger+
  from st assms(1) d0 r0 have
    d: "d = (if r0 = 1 then d0\<lparr>r_ss := r_ss d0 + delta s\<rparr> else d0\<lparr>r_ss := r_ss d0 - delta s\<rparr>)"
    and dlt: "dlt = delta s / 2"
    by (auto simp: staircase_def split: if_splits)
  from assms(2) d0 r0 have
    inv: "t_ss d0 = 0" "r_ll d0 = 800" "i div 6 < length delays" "t_ll d0 = delays ! (i div 6)"
      "delta s = 200 / 2 ^ (i mod 6)" "\<bar>r_ss d0 - 400\<bar> \<le> 400 - 400 / 2 ^ (i mod 6)"
      "r_ss d0 * 2 ^ (i mod 6) \<in> \<int>"
    by (auto simp: main_inv_def)
  have dy: "r_ss d * 2 ^ (Suc i mod 6) \<in> \<int>"
  proof -
    have "r_ss d * 2 ^ (Suc i mod 6) =
        (if r0 = 1 then 2 * (r_ss d0 * 2 ^ (i mod 6)) + 400 else 2 * (r_ss d0 * 2 ^ (i mod 6)) - 400)"
      by (simp add: d md inv(5) field_simps)
    moreover have "2 * (r_ss d0 * 2 ^ (i mod 6)) + 400 \<in> \<int>"
      "2 * (r_ss d0 * 2 ^ (i mod 6)) - 400 \<in> \<int>"
      using inv(7) by (auto intro!: Ints_add Ints_diff Ints_mult)
    ultimately show ?thesis by simp
  qed
  have bnd: "\<bar>r_ss d - 400\<bar> \<le> 400 - 400 / 2 ^ (Suc i mod 6)"
  proof -
    have "0 \<le> delta s"
      by (simp add: inv(5))
    then have "\<bar>r_ss d - 400\<bar> \<le> \<bar>r_ss d0 - 400\<bar> + delta s"
      by (auto simp: d)
    also have "\<dots> \<le> 400 - 400 / 2 ^ (i mod 6) + 200 / 2 ^ (i mod 6)"
      using inv(5,6) by simp
    also have "\<dots> = 400 - 400 / 2 ^ (Suc i mod 6)"
      by (simp add: md field_simps)
    finally show ?thesis .
  qed
  have "delta s / 2 = 200 / 2 ^ (Suc i mod 6)"
    by (simp add: md inv(5))
  with bnd dy inv(1-4) show ?thesis
    using run_trial_resp01 [of d io] by (auto simp: main_inv_def s' d dlt dv)
qed

lemma main_inv:
  "for_loop (main_trial c) [0..<Suc i] s0 = (None, s) \<Longrightarrow> main_inv i s"
proof (induction i arbitrary: s)
  case 0
  from for_loop_SucD [OF this] have "main_trial c 0 s0 = (None, s)" by simp
  then show ?case using main_inv_step0 [of 0 c s0 s] by simp
next
  case (Suc i)
  from Suc.prems obtain s1 where pre: "for_loop (main_trial c) [0..<Suc i] s0 = (None, s1)"
    and step: "main_trial c (Suc i) s1 = (None, s)"
    by (blast dest: for_loop_SucD)
  show ?case
  proof (cases "Suc i mod 6 = 0")
    case True
    then show ?thesis using step by (rule main_inv_step0)
  next
    case False
    then show ?thesis using Suc.IH [OF pre] step by (rule main_inv_stepS)
  qed
qed


lemma for_loop_err:
  "for_loop b [0..<n] s0 = (Some e, s) \<Longrightarrow>
     \<exists>k sk. k < n \<and> for_loop b [0..<k] s0 = (None, sk) \<and> b k sk = (Some e, s)"
proof (induction n)
  case 0
  then show ?case by simp
next
  case (Suc n)
  show ?case
  proof (cases "for_loop b [0..<n] s0")
    case (Pair r sn)
    show ?thesis
    proof (cases r)
      case None
      with Pair Suc.prems have "b n sn = (Some e, s)"
        by (simp add: for_loop_snoc)
      with Pair None show ?thesis by blast
    next
      case (Some e')
      with Pair Suc.prems have "for_loop b [0..<n] s0 = (Some e, s)"
        by (simp add: for_loop_snoc)
      from Suc.IH [OF this] show ?thesis using less_Suc_eq by blast
    qed
  qed
qed

lemma main_trial_rows:
  "main_trial c t s = (None, s') \<Longrightarrow> \<exists>r. rows (df_data s') = rows (df_data s) @ [r]"
  by (erule main_trial_ok) simp

lemma prac_trial_rows:
  "prac_trial c t s = (None, s') \<Longrightarrow> \<exists>r. rows (df_data s') = rows (df_data s) @ [r]"
  by (erule prac_trial_ok) simp

lemma loop_rows:
  assumes step: "\<And>t s s'. b t s = (None, s') \<Longrightarrow> \<exists>r. rows (df_data s') = rows (df_data s) @ [r]"
  shows "for_loop b [0..<n] s0 = (None, s) \<Longrightarrow>
           \<exists>R. rows (df_data s) = rows (df_data s0) @ R \<and> length R = n"
proof (induction n arbitrary: s)
  case 0
  then show ?case by simp
next
  case (Suc n)
  from for_loop_SucD [OF Suc.prems] obtain s1 where
    pre: "for_loop b [0..<n] s0 = (None, s1)" and last: "b n s1 = (None, s)" by blast
  from Suc.IH [OF pre] obtain R where "rows (df_data s1) = rows (df_data s0) @ R" "length R = n"
    by blast
  moreover from step [OF last] obtain r where "rows (df_data s) = rows (df_data s1) @ [r]"
    by blast
  ultimately have "rows (df_data s) = rows (df_data s0) @ (R @ [r]) \<and> length (R @ [r]) = Suc n"
    by simp
  then show ?case by blast
qed

lemma loop_rows_nth:
  assumes step: "\<And>t s s'. b t s = (None, s') \<Longrightarrow> \<exists>r. rows (df_data s') = rows (df_data s) @ [r]"
    and run: "for_loop b [0..<n] s0 = (None, s)"
    and i: "i < n"
  shows "\<exists>si. for_loop b [0..<Suc i] s0 = (None, si) \<and>
           rows (df_data s) ! (length (rows (df_data s0)) + i) = last (rows (df_data si))"
  using run i
proof (induction n arbitrary: s)
  case 0
  then show ?case by simp
next
  case (Suc n)
  from for_loop_SucD [OF Suc.prems(1)] obtain s1 where
    pre: "for_loop b [0..<n] s0 = (None, s1)" and last: "b n s1 = (None, s)" by blast
  have "\<exists>R. rows (df_data s1) = rows (df_data s0) @ R \<and> length R = n"
    by (rule loop_rows [OF _ pre]) (erule step)
  then obtain R where
    R: "rows (df_data s1) = rows (df_data s0) @ R" "length R = n" by blast
  from step [OF last] obtain r where r: "rows (df_data s) = rows (df_data s1) @ [r]"
    by blast
  show ?case
  proof (cases "i = n")
    case True
    with R r have "rows (df_data s) ! (length (rows (df_data s0)) + i) = last (rows (df_data s))"
      by (simp add: nth_append)
    with True Suc.prems(1) show ?thesis by blast
  next
    case False
    with Suc.prems(2) have "i < n" by simp
    from Suc.IH [OF pre this] obtain si where
      "for_loop b [0..<Suc i] s0 = (None, si)"
      "rows (df_data s1) ! (length (rows (df_data s0)) + i) = last (rows (df_data si))"
      by blast
    moreover have "rows (df_data s) ! (length (rows (df_data s0)) + i) =
        rows (df_data s1) ! (length (rows (df_data s0)) + i)"
      using R r \<open>i < n\<close> by (simp add: nth_append)
    ultimately show ?thesis by auto
  qed
qed

subsection \<open>The trial routine decides the response\<close>



subsection \<open>The staircase transition\<close>

lemma main_block_nat:
  "main_block c (int t) s0 = for_loop (main_trial c) [0..<t] s0"
  by (simp add: main_block_def py_range_def)

lemma practice_nat:
  "practice c (int t) s0 = for_loop (prac_trial c) [0..<t] s0"
  by (simp add: practice_def py_range_def)

text \<open>
  C1. The staircase transition of the main trial with index \<open>t\<close>, between the state
  \<open>s\<close> left by the trials before it and the state \<open>s'\<close> it leaves. At a block start
  (\<open>t mod 6 = 0\<close>, the first main trial included) the design gets the delay
  \<open>delays ! (t div 6)\<close> and the reward 400, and the step size is 200. Otherwise the
  reward moves by the step size, up when the previous response (the one in the last
  row) is 1 and down when it is 0, and the step size is halved. So the step size after
  trial \<open>t\<close> is \<open>200 / 2 ^ (t mod 6)\<close>. The design presented is the one recorded.
\<close>

theorem staircase_transition:
  assumes "main_block c (int t) s0 = (None, s)"
      and "main_block c (int (Suc t)) s0 = (None, s')"
  shows "delta s' = 200 / 2 ^ (t mod 6) \<and>
     (t mod 6 = 0 \<longrightarrow>
        t div 6 < length delays \<and>
        design s' = Some \<lparr>t_ss = 0, t_ll = delays ! (t div 6), r_ss = 400, r_ll = 800\<rparr> \<and>
        delta s' = 200) \<and>
     (t mod 6 \<noteq> 0 \<longrightarrow>
        (\<exists>d r. design s = Some d \<and> response s = Some r \<and>
           last (rows (df_data s)) ''response'' = Some (CInt r) \<and>
           design s' = Some (d\<lparr>r_ss := (if r = 1 then r_ss d + delta s else r_ss d - delta s)\<rparr>) \<and>
           delta s' = delta s / 2 \<and> 0 < delta s' \<and> delta s' < delta s)) \<and>
     (\<exists>d. design s' = Some d \<and>
        last (rows (df_data s')) ''t_ll'' = Some (CNum (t_ll d)) \<and>
        last (rows (df_data s')) ''r_ss'' = Some (CNum (r_ss d)))"
proof -
  from assms have pre: "for_loop (main_trial c) [0..<t] s0 = (None, s)"
    and all: "for_loop (main_trial c) [0..<Suc t] s0 = (None, s')"
    by (simp_all only: main_block_nat)
  from for_loop_SucD [OF all] pre have step: "main_trial c t s = (None, s')"
    by simp
  have inv': "main_inv t s'"
    using all by (rule main_inv)
  then obtain d' r' where d': "design s' = Some d'" and r': "response s' = Some r'"
    by (auto simp: main_inv_def split: option.splits)
  from inv' d' r' have A: "delta s' = 200 / 2 ^ (t mod 6)"
    and D: "last (rows (df_data s')) ''t_ll'' = Some (CNum (t_ll d'))"
      "last (rows (df_data s')) ''r_ss'' = Some (CNum (r_ss d'))"
    by (simp_all add: main_inv_def)
  from step obtain d dlt where
    st: "staircase t (design s) (delta s) (response s) = Inr (d, dlt)"
    and "design s' = Some d" and "delta s' = dlt"
    by (rule main_trial_ok) simp
  with d' have st': "staircase t (design s) (delta s) (response s) = Inr (d', delta s')"
    by simp
  have B: "t mod 6 = 0 \<longrightarrow>
        t div 6 < length delays \<and>
        design s' = Some \<lparr>t_ss = 0, t_ll = delays ! (t div 6), r_ss = 400, r_ll = 800\<rparr> \<and>
        delta s' = 200"
    using st' d' by (auto simp: staircase_def split: if_splits)
  have C: "\<exists>d r. design s = Some d \<and> response s = Some r \<and>
           last (rows (df_data s)) ''response'' = Some (CInt r) \<and>
           design s' = Some (d\<lparr>r_ss := (if r = 1 then r_ss d + delta s else r_ss d - delta s)\<rparr>) \<and>
           delta s' = delta s / 2 \<and> 0 < delta s' \<and> delta s' < delta s"
    if nz: "t mod 6 \<noteq> 0"
  proof -
    from nz obtain i where t: "t = Suc i" by (cases t) auto
    with pre have inv: "main_inv i s" by (simp add: main_inv)
    then obtain d0 r0 where d0: "design s = Some d0" and r0: "response s = Some r0"
      by (auto simp: main_inv_def split: option.splits)
    from inv d0 r0 have rec: "last (rows (df_data s)) ''response'' = Some (CInt r0)"
      and pos: "delta s = 200 / 2 ^ (i mod 6)"
      by (simp_all add: main_inv_def)
    from pos have "0 < delta s" by simp
    moreover from st' nz d0 r0 have
      "d' = d0\<lparr>r_ss := (if r0 = 1 then r_ss d0 + delta s else r_ss d0 - delta s)\<rparr>"
      "delta s' = delta s / 2"
      by (auto simp: staircase_def split: if_splits)
    ultimately show ?thesis using d0 r0 rec d' by simp
  qed
  from A B C D d' show ?thesis by blast
qed

theorem staircase_transition_witness:
  "fst (main_block (scripted (\<lambda>t. ''j'')) 7 (init_session [])) = None \<and>
   delta (snd (main_block (scripted (\<lambda>t. ''j'')) 1 (init_session []))) = 200 \<and>
   design (snd (main_block (scripted (\<lambda>t. ''j'')) 2 (init_session []))) =
     Some \<lparr>t_ss = 0, t_ll = 1, r_ss = 600, r_ll = 800\<rparr> \<and>
   delta (snd (main_block (scripted (\<lambda>t. ''j'')) 2 (init_session []))) = 100 \<and>
   design (snd (main_block (scripted (\<lambda>t. ''j'')) 7 (init_session []))) =
     Some \<lparr>t_ss = 0, t_ll = 2, r_ss = 400, r_ll = 800\<rparr> \<and>
   delta (snd (main_block (scripted (\<lambda>t. ''j'')) 7 (init_session []))) = 200"
proof -
  let ?c = "scripted (\<lambda>t. ''j'')"
  let ?s0 = "init_session [] :: (dd_design \<times> int) list session"
  have ok: "fst (main_block ?c 1 ?s0) = None" "fst (main_block ?c 2 ?s0) = None"
    "fst (main_block ?c 6 ?s0) = None" "fst (main_block ?c 7 ?s0) = None"
    by code_simp+
  have r1: "main_block ?c (int 1) ?s0 = (None, snd (main_block ?c 1 ?s0))"
    and r2: "main_block ?c (int (Suc 1)) ?s0 = (None, snd (main_block ?c 2 ?s0))"
    and r6: "main_block ?c (int 6) ?s0 = (None, snd (main_block ?c 6 ?s0))"
    and r7: "main_block ?c (int (Suc 6)) ?s0 = (None, snd (main_block ?c 7 ?s0))"
    using ok by (simp_all add: prod_eq_iff)
  have s1: "design (snd (main_block ?c 1 ?s0)) = Some \<lparr>t_ss = 0, t_ll = 1, r_ss = 400, r_ll = 800\<rparr>"
    "response (snd (main_block ?c 1 ?s0)) = Some 1"
    "delta (snd (main_block ?c 1 ?s0)) = 200"
    by code_simp+
  from staircase_transition [OF r1 r2] s1
  have "design (snd (main_block ?c 2 ?s0)) = Some \<lparr>t_ss = 0, t_ll = 1, r_ss = 600, r_ll = 800\<rparr> \<and>
        delta (snd (main_block ?c 2 ?s0)) = 100"
    by auto
  moreover from staircase_transition [OF r6 r7]
  have "design (snd (main_block ?c 7 ?s0)) = Some \<lparr>t_ss = 0, t_ll = 2, r_ss = 400, r_ll = 800\<rparr> \<and>
        delta (snd (main_block ?c 7 ?s0)) = 200"
    by (simp add: delays_def)
  ultimately show ?thesis using ok(4) s1(3) by simp
qed

subsection \<open>The rows of the main block\<close>

lemma main_block_stop:
  assumes "main_block c n s0 = (err, s)"
  obtains k sk where "k \<le> nat n" "for_loop (main_trial c) [0..<k] s0 = (None, sk)"
    "df_data s = df_data sk" "path_output s = path_output sk"
    "err = None \<Longrightarrow> k = nat n \<and> s = sk"
    "\<And>e. err = Some e \<Longrightarrow> k < nat n \<and> main_trial c k sk = (Some e, s)"
proof (cases err)
  case None
  with assms that [of "nat n" s] show ?thesis
    by (simp add: main_block_def py_range_def)
next
  case (Some e)
  with assms have "for_loop (main_trial c) [0..<nat n] s0 = (Some e, s)"
    by (simp add: main_block_def py_range_def)
  from for_loop_err [OF this] obtain k sk where
    k: "k < nat n" "for_loop (main_trial c) [0..<k] s0 = (None, sk)" "main_trial c k sk = (Some e, s)"
    by blast
  with main_trial_err [OF k(3)] Some that [of k sk] show ?thesis by simp
qed

lemma rows_since_length:
  "for_loop (main_trial c) [0..<k] s0 = (None, sk) \<Longrightarrow> length (rows_since s0 sk) = k"
proof -
  assume run: "for_loop (main_trial c) [0..<k] s0 = (None, sk)"
  have "\<exists>R. rows (df_data sk) = rows (df_data s0) @ R \<and> length R = k"
    by (rule loop_rows [OF _ run]) (erule main_trial_rows)
  then show ?thesis by (auto simp: rows_since_def)
qed

lemma rows_since_nth:
  assumes run: "for_loop (main_trial c) [0..<k] s0 = (None, sk)" and i: "i < k"
  obtains si where "for_loop (main_trial c) [0..<Suc i] s0 = (None, si)"
    "main_inv i si" "rows_since s0 sk ! i = last (rows (df_data si))"
proof -
  have "\<exists>si. for_loop (main_trial c) [0..<Suc i] s0 = (None, si) \<and>
           rows (df_data sk) ! (length (rows (df_data s0)) + i) = last (rows (df_data si))"
    by (rule loop_rows_nth [OF _ run i]) (erule main_trial_rows)
  then obtain si where si: "for_loop (main_trial c) [0..<Suc i] s0 = (None, si)"
    "rows (df_data sk) ! (length (rows (df_data s0)) + i) = last (rows (df_data si))"
    by blast
  have "\<exists>R. rows (df_data sk) = rows (df_data s0) @ R \<and> length R = k"
    by (rule loop_rows [OF _ run]) (erule main_trial_rows)
  with i have "rows_since s0 sk ! i = rows (df_data sk) ! (length (rows (df_data s0)) + i)"
    by (auto simp: rows_since_def)
  with si main_inv [OF si(1)] that show ?thesis by simp
qed

lemma main_row_facts:
  assumes run: "for_loop (main_trial c) [0..<k] s0 = (None, sk)" and i: "i < k"
  shows "\<exists>x r. (rows_since s0 sk ! i) ''block'' = Some (CStr ''main'') \<and>
           i div 6 < length delays \<and>
           (rows_since s0 sk ! i) ''t_ll'' = Some (CNum (delays ! (i div 6))) \<and>
           (rows_since s0 sk ! i) ''r_ss'' = Some (CNum x) \<and>
           \<bar>x - 400\<bar> \<le> 400 - 400 / 2 ^ (i mod 6) \<and>
           (rows_since s0 sk ! i) ''response'' = Some (CInt r) \<and> (r = 0 \<or> r = 1)"
proof -
  from run i obtain si where "for_loop (main_trial c) [0..<Suc i] s0 = (None, si)"
    "main_inv i si" "rows_since s0 sk ! i = last (rows (df_data si))"
    by (rule rows_since_nth)
  then show ?thesis
    by (auto simp: main_inv_def split: option.splits)
qed

lemma main_row_step:
  assumes run: "for_loop (main_trial c) [0..<k] s0 = (None, sk)" and i: "Suc i < k"
    and nz: "Suc i mod 6 \<noteq> 0"
    and x: "(rows_since s0 sk ! i) ''r_ss'' = Some (CNum x)"
    and r: "(rows_since s0 sk ! i) ''response'' = Some (CInt r)"
  shows "(rows_since s0 sk ! Suc i) ''r_ss'' =
           Some (CNum (if r = 1 then x + 200 / 2 ^ (i mod 6) else x - 200 / 2 ^ (i mod 6)))"
proof -
  from i have i': "i < k" by simp
  from run i' obtain si where si: "for_loop (main_trial c) [0..<Suc i] s0 = (None, si)"
    "main_inv i si" "rows_since s0 sk ! i = last (rows (df_data si))"
    by (rule rows_since_nth)
  from run i obtain sj where sj: "for_loop (main_trial c) [0..<Suc (Suc i)] s0 = (None, sj)"
    "main_inv (Suc i) sj" "rows_since s0 sk ! Suc i = last (rows (df_data sj))"
    by (rule rows_since_nth)
  from for_loop_SucD [OF sj(1)] si(1) have step: "main_trial c (Suc i) si = (None, sj)"
    by simp
  from si(2) obtain d0 r0 where d0: "design si = Some d0" and r0: "response si = Some r0"
    by (auto simp: main_inv_def split: option.splits)
  from si(2,3) d0 r0 x r have old: "r_ss d0 = x" "r0 = r" "delta si = 200 / 2 ^ (i mod 6)"
    by (simp_all add: main_inv_def)
  from step obtain d dlt where
    st: "staircase (Suc i) (design si) (delta si) (response si) = Inr (d, dlt)"
    and d: "design sj = Some d"
    by (rule main_trial_ok) simp
  from st nz d0 r0 have "r_ss d = (if r0 = 1 then r_ss d0 + delta si else r_ss d0 - delta si)"
    by (auto simp: staircase_def split: if_splits)
  moreover from sj(2,3) d have "(rows_since s0 sk ! Suc i) ''r_ss'' = Some (CNum (r_ss d))"
    by (auto simp: main_inv_def split: option.splits)
  ultimately show ?thesis using old by simp
qed

lemma rows_since_stop:
  assumes "main_block c n s0 = (err, s)"
  obtains k sk where "k \<le> nat n" "for_loop (main_trial c) [0..<k] s0 = (None, sk)"
    "rows_since s0 s = rows_since s0 sk" "length (rows_since s0 s) = k"
proof -
  from assms obtain k sk where k: "k \<le> nat n" "for_loop (main_trial c) [0..<k] s0 = (None, sk)"
    "df_data s = df_data sk"
    by (rule main_block_stop)
  from k(3) have "rows_since s0 s = rows_since s0 sk"
    by (simp add: rows_since_def)
  with k(1,2) rows_since_length [OF k(2)] that show ?thesis by simp
qed

lemma take6_drop:
  assumes "k + 6 \<le> length R"
  shows "take 6 (drop k R) = [R ! k, R ! (k + 1), R ! (k + 2), R ! (k + 3), R ! (k + 4), R ! (k + 5)]"
proof -
  have "\<And>j. j < 6 \<Longrightarrow> drop (k + j) R = R ! (k + j) # drop (k + Suc j) R"
    using assms by (simp add: Cons_nth_drop_Suc)
  from this [of 0] this [of 1] this [of 2] this [of 3] this [of 4] this [of 5]
  have "drop k R = R ! k # R ! (k + 1) # R ! (k + 2) # R ! (k + 3) # R ! (k + 4) # R ! (k + 5)
          # drop (k + 6) R"
    by (simp add: eval_nat_numeral)
  then show ?thesis by simp
qed

subsection \<open>One block with the responses 1, 1, 1, 1, 1, 0\<close>

text \<open>
  C9. In any block of the main phase (trials \<open>6 * b\<close> to \<open>6 * b + 5\<close>) whose recorded
  responses are 1, 1, 1, 1, 1, 0, the recorded rewards of the smaller-sooner option are
  400, 600, 700, 750, 775 and 787.5 (\<open>1575 / 2\<close>), exactly.
\<close>

theorem block_example:
  assumes "main_block c n s0 = (err, s)"
    and "6 * b + 6 \<le> length (rows_since s0 s)"
    and "column ''response'' (take 6 (drop (6 * b) (rows_since s0 s))) =
           map (\<lambda>x. Some (CInt x)) [1, 1, 1, 1, 1, 0]"
  shows "column ''r_ss'' (take 6 (drop (6 * b) (rows_since s0 s))) =
           map (\<lambda>x. Some (CNum x)) [400, 600, 700, 750, 775, 1575 / 2]"
proof -
  from assms(1) obtain k sk where run: "for_loop (main_trial c) [0..<k] s0 = (None, sk)"
    and eq: "rows_since s0 s = rows_since s0 sk" and len: "length (rows_since s0 s) = k"
    by (rule rows_since_stop)
  let ?R = "rows_since s0 sk"
  from assms(2) eq have b: "6 * b + 6 \<le> length ?R" by simp
  note six = take6_drop [OF b]
  from assms(3) have resp:
    "(?R ! (6 * b)) ''response'' = Some (CInt 1)"
    "(?R ! (6 * b + 1)) ''response'' = Some (CInt 1)"
    "(?R ! (6 * b + 2)) ''response'' = Some (CInt 1)"
    "(?R ! (6 * b + 3)) ''response'' = Some (CInt 1)"
    "(?R ! (6 * b + 4)) ''response'' = Some (CInt 1)"
    by (simp_all add: eq six column_def)
  from assms(2) len have lt: "6 * b < k" "Suc (6 * b) < k" "Suc (6 * b + 1) < k"
    "Suc (6 * b + 2) < k" "Suc (6 * b + 3) < k" "Suc (6 * b + 4) < k"
    by simp_all
  have md: "Suc (6 * b) mod 6 \<noteq> 0" "Suc (6 * b + 1) mod 6 \<noteq> 0" "Suc (6 * b + 2) mod 6 \<noteq> 0"
    "Suc (6 * b + 3) mod 6 \<noteq> 0" "Suc (6 * b + 4) mod 6 \<noteq> 0"
    by presburger+
  have mv: "(6 * b) mod 6 = 0" "(6 * b + 1) mod 6 = 1" "(6 * b + 2) mod 6 = 2"
    "(6 * b + 3) mod 6 = 3" "(6 * b + 4) mod 6 = 4"
    by presburger+
  have ix: "Suc (6 * b) = 6 * b + 1" "Suc (6 * b + 1) = 6 * b + 2" "Suc (6 * b + 2) = 6 * b + 3"
    "Suc (6 * b + 3) = 6 * b + 4" "Suc (6 * b + 4) = 6 * b + 5"
    by simp_all
  from main_row_facts [OF run lt(1)] have r0: "(?R ! (6 * b)) ''r_ss'' = Some (CNum 400)"
    by (auto simp: mv)
  from main_row_step [OF run lt(2) md(1) r0 resp(1)]
  have r1: "(?R ! (6 * b + 1)) ''r_ss'' = Some (CNum 600)"
    unfolding mv ix by simp
  from main_row_step [OF run lt(3) md(2) r1 resp(2)]
  have r2: "(?R ! (6 * b + 2)) ''r_ss'' = Some (CNum 700)"
    unfolding mv ix by simp
  from main_row_step [OF run lt(4) md(3) r2 resp(3)]
  have r3: "(?R ! (6 * b + 3)) ''r_ss'' = Some (CNum 750)"
    unfolding mv ix by simp
  from main_row_step [OF run lt(5) md(4) r3 resp(4)]
  have r4: "(?R ! (6 * b + 4)) ''r_ss'' = Some (CNum 775)"
    unfolding mv ix by simp
  from main_row_step [OF run lt(6) md(5) r4 resp(5)]
  have r5: "(?R ! (6 * b + 5)) ''r_ss'' = Some (CNum (1575 / 2))"
    unfolding mv ix by simp
  from r0 r1 r2 r3 r4 r5 show ?thesis
    by (simp add: eq six column_def)
qed

theorem block_example_witness:
  "fst (main_block (scripted (\<lambda>t. if t = 5 then ''f'' else ''j'')) 6 (init_session [])) = None \<and>
   column ''response'' (take 6 (drop (6 * 0) (rows_since (init_session [])
     (snd (main_block (scripted (\<lambda>t. if t = 5 then ''f'' else ''j'')) 6 (init_session [])))))) =
     map (\<lambda>x. Some (CInt x)) [1, 1, 1, 1, 1, 0] \<and>
   column ''r_ss'' (take 6 (drop (6 * 0) (rows_since (init_session [])
     (snd (main_block (scripted (\<lambda>t. if t = 5 then ''f'' else ''j'')) 6 (init_session [])))))) =
     map (\<lambda>x. Some (CNum x)) [400, 600, 700, 750, 775, 1575 / 2]"
proof -
  let ?c = "scripted (\<lambda>t. if t = 5 then ''f'' else ''j'')"
  let ?init = "init_session [] :: (dd_design \<times> int) list session"
  let ?s = "snd (main_block ?c 6 ?init)"
  have ok: "fst (main_block ?c 6 ?init) = None"
    by code_simp
  then have h1: "main_block ?c 6 ?init = (None, ?s)"
    by (simp add: prod_eq_iff)
  have h2: "6 * 0 + 6 \<le> length (rows_since ?init ?s)"
    by code_simp
  have h3: "column ''response'' (take 6 (drop (6 * 0) (rows_since ?init ?s))) =
      map (\<lambda>x. Some (CInt x)) [1, 1, 1, 1, 1, 0]"
    by code_simp
  from block_example [OF h1 h2 h3] ok h3 show ?thesis by simp
qed

lemma nth_concat_replicate:
  "i < m * length xs \<Longrightarrow> concat (map (replicate m) xs) ! i = xs ! (i div m)"
proof (induction xs arbitrary: i)
  case Nil
  then show ?case by simp
next
  case (Cons x xs)
  show ?case
  proof (cases "i < m")
    case True
    then show ?thesis by (simp add: nth_append)
  next
    case False
    then have ge: "m \<le> i" by simp
    from Cons.prems have pos: "0 < m" by (cases m) auto
    from Cons.prems ge have "i - m < m * length xs" by simp
    from Cons.IH [OF this] have "concat (map (replicate m) xs) ! (i - m) = xs ! ((i - m) div m)" .
    moreover from pos ge have "i div m = Suc ((i - m) div m)"
      by (rule le_div_geq)
    ultimately show ?thesis using False by (simp add: nth_append)
  qed
qed

subsection \<open>The delays of a main phase of 42 trials\<close>

text \<open>
  C4. A main phase of 42 trials that runs to its end records the delays
  1, 2, 4.3, 26, 52, 156, 520 in this order, each in six consecutive rows; the seven
  values are distinct, so none is repeated in another block and none is skipped.
\<close>

theorem delays_in_order:
  assumes "main_block c 42 s0 = (None, s)"
  shows "column ''t_ll'' (rows_since s0 s) =
           map (\<lambda>x. Some (CNum x)) (concat (map (replicate 6) delays)) \<and>
         length (rows_since s0 s) = 6 * length delays \<and>
         delays = [1, 2, 43 / 10, 26, 52, 156, 520] \<and> distinct delays"
proof -
  from assms have run: "for_loop (main_trial c) [0..<42] s0 = (None, s)"
    by (simp add: main_block_def py_range_def)
  have len: "length (rows_since s0 s) = 42"
    using run by (rule rows_since_length)
  have lenc: "length (concat (map (replicate 6) delays)) = 42"
    by (simp add: delays_def)
  have "column ''t_ll'' (rows_since s0 s) ! i =
          map (\<lambda>x. Some (CNum x)) (concat (map (replicate 6) delays)) ! i" if "i < 42" for i
  proof -
    from main_row_facts [OF run that]
    have "(rows_since s0 s ! i) ''t_ll'' = Some (CNum (delays ! (i div 6)))"
      by blast
    moreover from that have "concat (map (replicate 6) delays) ! i = delays ! (i div 6)"
      by (intro nth_concat_replicate) (simp add: delays_def)
    ultimately show ?thesis using that len lenc by (simp add: column_def)
  qed
  with len lenc have "column ''t_ll'' (rows_since s0 s) =
           map (\<lambda>x. Some (CNum x)) (concat (map (replicate 6) delays))"
    by (intro nth_equalityI) (simp_all add: column_def)
  with len show ?thesis by (simp add: delays_def)
qed

lemma main_trial_IndexError:
  "t mod 6 = 0 \<Longrightarrow> length delays \<le> t div 6 \<Longrightarrow> main_trial c t s = (Some IndexError, s)"
  by (simp add: main_trial_def staircase_def)

lemma main_trial_succeeds:
  assumes "t = 0 \<or> (\<exists>i. t = Suc i \<and> main_inv i s)" and "t < 6 * length delays"
    and "main_io c t \<noteq> None" and "\<And>e d r. update c e d r \<noteq> None"
  shows "\<exists>s'. main_trial c t s = (None, s')"
proof -
  have "\<not> isl (staircase t (design s) (delta s) (response s))"
  proof (cases "t mod 6 = 0")
    case True
    moreover from assms(2) have "t div 6 < length delays" by (simp add: less_mult_imp_div_less mult.commute)
    ultimately show ?thesis by (simp add: staircase_def)
  next
    case False
    with assms(1) obtain i where "main_inv i s" by auto
    then obtain d0 r0 where "design s = Some d0" "response s = Some r0"
      by (auto simp: main_inv_def split: option.splits)
    with False show ?thesis
      by (simp add: staircase_def)
  qed
  then obtain d dlt where st: "staircase t (design s) (delta s) (response s) = Inr (d, dlt)"
    by (cases "staircase t (design s) (delta s) (response s)") auto
  from assms(3) obtain io where io: "main_io c t = Some io" by auto
  from assms(4) obtain e' where
    "update c (engine s) d (fst (snd (snd (run_trial d io)))) = Some e'"
    by (meson option.exhaust)
  with st io show ?thesis by (simp add: main_trial_def Let_def)
qed

lemma main_loop_completes:
  assumes io: "\<And>t. t < k \<Longrightarrow> main_io c t \<noteq> None"
    and up: "\<And>e d r. update c e d r \<noteq> None"
    and k: "k \<le> 6 * length delays"
  shows "\<exists>s. for_loop (main_trial c) [0..<k] s0 = (None, s)"
  using io k
proof (induction k)
  case 0
  then show ?case by simp
next
  case (Suc k)
  then obtain s1 where pre: "for_loop (main_trial c) [0..<k] s0 = (None, s1)"
    by force
  have "k = 0 \<or> (\<exists>i. k = Suc i \<and> main_inv i s1)"
  proof (cases k)
    case 0
    then show ?thesis by simp
  next
    case (Suc i)
    with pre show ?thesis by (simp add: main_inv)
  qed
  moreover from pre have "k = 0 \<longrightarrow> s1 = s0" by auto
  ultimately have "\<exists>s'. main_trial c k s1 = (None, s')"
    using Suc.prems up by (intro main_trial_succeeds) auto
  with pre show ?case by (auto simp: for_loop_snoc)
qed

theorem delays_in_order_witness:
  "fst (main_block (scripted (\<lambda>t. if even t then ''f'' else ''j'')) 42 (init_session [])) = None \<and>
   column ''t_ll'' (rows_since (init_session [])
     (snd (main_block (scripted (\<lambda>t. if even t then ''f'' else ''j'')) 42 (init_session [])))) =
     map (\<lambda>x. Some (CNum x)) (concat (map (replicate 6) [1, 2, 43 / 10, 26, 52, 156, 520]))"
proof -
  let ?c = "scripted (\<lambda>t. if even t then ''f'' else ''j'')"
  let ?init = "init_session [] :: (dd_design \<times> int) list session"
  have "\<exists>s. for_loop (main_trial ?c) [0..<42] ?init = (None, s)"
    by (rule main_loop_completes) (simp_all add: scripted_def delays_def)
  then have ok: "fst (main_block ?c 42 ?init) = None"
    by (auto simp: main_block_def py_range_def)
  then have h: "main_block ?c 42 ?init = (None, snd (main_block ?c 42 ?init))"
    by (simp add: prod_eq_iff)
  from delays_in_order [OF h] ok show ?thesis by simp
qed

subsection \<open>The range of the smaller-sooner reward\<close>

lemma main_rows_bounded:
  assumes "main_block c n s0 = (err, s)" and "r \<in> set (rows_since s0 s)"
  shows "\<exists>x. r ''r_ss'' = Some (CNum x) \<and> r ''r_ll'' = Some (CNum 800) \<and>
           25 / 2 \<le> x \<and> x \<le> 1575 / 2"
proof -
  from assms(1) obtain k sk where run: "for_loop (main_trial c) [0..<k] s0 = (None, sk)"
    and eq: "rows_since s0 s = rows_since s0 sk" and len: "length (rows_since s0 s) = k"
    by (rule rows_since_stop)
  from assms(2) len obtain i where i: "i < k" and r: "r = rows_since s0 s ! i"
    by (auto simp: in_set_conv_nth)
  from run i obtain si where si: "for_loop (main_trial c) [0..<Suc i] s0 = (None, si)"
    "main_inv i si" "rows_since s0 sk ! i = last (rows (df_data si))"
    by (rule rows_since_nth)
  from si(2) obtain d where d: "design si = Some d"
    by (auto simp: main_inv_def split: option.splits)
  from si(2,3) d r eq have row: "r ''r_ss'' = Some (CNum (r_ss d))" "r ''r_ll'' = Some (CNum 800)"
    and bnd: "\<bar>r_ss d - 400\<bar> \<le> 400 - 400 / 2 ^ (i mod 6)"
    by (auto simp: main_inv_def split: option.splits)
  have "(2::rat) ^ (i mod 6) \<le> 2 ^ 5"
    by (intro power_increasing) simp_all
  then have "(25 / 2 :: rat) * 2 ^ (i mod 6) \<le> 400"
    by simp
  then have "(25 / 2 :: rat) \<le> 400 / 2 ^ (i mod 6)"
    by (simp add: pos_le_divide_eq)
  with bnd have "25 / 2 \<le> r_ss d \<and> r_ss d \<le> 1575 / 2"
    by (simp add: abs_le_iff)
  with row show ?thesis by blast
qed

text \<open>
  C8. The staircase has no clamp, and none is needed: each block starts again at 400
  with the step 200, and the step is halved after every use, so every reward of the
  smaller-sooner option recorded in the main phase lies between 12.5 and 787.5. It is
  positive and below the reward 800 of the larger-later option, whatever the responses.
\<close>

theorem r_ss_within_grid:
  assumes "main_block c n s0 = (err, s)" and "r \<in> set (rows_since s0 s)"
  shows "\<exists>x. r ''r_ss'' = Some (CNum x) \<and> r ''r_ll'' = Some (CNum 800) \<and>
           25 / 2 \<le> x \<and> x \<le> 1575 / 2 \<and> 0 < x \<and> x < 800"
proof -
  from main_rows_bounded [OF assms] obtain x where
    "r ''r_ss'' = Some (CNum x)" "r ''r_ll'' = Some (CNum 800)" "25 / 2 \<le> x" "x \<le> 1575 / 2"
    by blast
  moreover from this have "0 < x" "x < 800" by simp_all
  ultimately show ?thesis by blast
qed

theorem r_ss_within_grid_witness:
  "fst (main_block (scripted (\<lambda>t. ''j'')) 6 (init_session [])) = None \<and>
   rows_since (init_session []) (snd (main_block (scripted (\<lambda>t. ''j'')) 6 (init_session []))) ! 5
     \<in> set (rows_since (init_session [])
          (snd (main_block (scripted (\<lambda>t. ''j'')) 6 (init_session [])))) \<and>
   (rows_since (init_session []) (snd (main_block (scripted (\<lambda>t. ''j'')) 6 (init_session []))) ! 5)
     ''r_ss'' = Some (CNum (1575 / 2)) \<and>
   (rows_since (init_session []) (snd (main_block (scripted (\<lambda>t. ''j'')) 6 (init_session []))) ! 5)
     ''r_ll'' = Some (CNum 800) \<and>
   (1575 / 2 :: rat) < 800"
proof -
  let ?c = "scripted (\<lambda>t. ''j'')"
  let ?init = "init_session [] :: (dd_design \<times> int) list session"
  let ?s = "snd (main_block ?c 6 ?init)"
  have ok: "fst (main_block ?c 6 ?init) = None"
    by code_simp
  then have h1: "main_block ?c 6 ?init = (None, ?s)"
    by (simp add: prod_eq_iff)
  have "length (rows_since ?init ?s) = 6"
    by code_simp
  then have h2: "rows_since ?init ?s ! 5 \<in> set (rows_since ?init ?s)"
    by simp
  have v: "(rows_since ?init ?s ! 5) ''r_ss'' = Some (CNum (1575 / 2))"
    by code_simp
  from r_ss_within_grid [OF h1 h2] ok h2 v show ?thesis by auto
qed

text \<open>
  No run of the main phase records a reward of the smaller-sooner option below 0 or
  above 800.
\<close>

theorem r_ss_out_of_range_counterexample:
  "\<not> (\<exists>(c :: (dd_design \<times> int) list collaborators) n s0 err s r x.
        main_block c n s0 = (err, s) \<and> r \<in> set (rows_since s0 s) \<and>
        r ''r_ss'' = Some (CNum x) \<and> (x < 0 \<or> 800 < x))"
proof
  assume "\<exists>(c :: (dd_design \<times> int) list collaborators) n s0 err s r x.
        main_block c n s0 = (err, s) \<and> r \<in> set (rows_since s0 s) \<and>
        r ''r_ss'' = Some (CNum x) \<and> (x < 0 \<or> 800 < x)"
  then obtain c :: "(dd_design \<times> int) list collaborators" and n s0 err s r x where
    run: "main_block c n s0 = (err, s)" and r: "r \<in> set (rows_since s0 s)"
    and x: "r ''r_ss'' = Some (CNum x)" and out: "x < 0 \<or> 800 < x"
    by blast
  from main_rows_bounded [OF run r] x have "25 / 2 \<le> x \<and> x \<le> 1575 / 2"
    by auto
  with out show False by auto
qed

subsection \<open>Trial counts that do not fit the blocks\<close>

lemma main_block_runs:
  assumes io: "\<And>t. main_io c t \<noteq> None" and up: "\<And>e d r. update c e d r \<noteq> None"
    and n: "n \<le> int (6 * length delays)"
  shows "\<exists>s. main_block c n s0 = (None, s) \<and> length (rows_since s0 s) = nat n"
proof -
  from n have "nat n \<le> 6 * length delays" by simp
  with io up have "\<exists>s. for_loop (main_trial c) [0..<nat n] s0 = (None, s)"
    by (intro main_loop_completes) auto
  then obtain s where run: "for_loop (main_trial c) [0..<nat n] s0 = (None, s)" by blast
  from run rows_since_length [OF run] show ?thesis
    by (simp add: main_block_def py_range_def)
qed

lemma main_block_overrun:
  assumes io: "\<And>t. main_io c t \<noteq> None" and up: "\<And>e d r. update c e d r \<noteq> None"
    and n: "int (6 * length delays) < n"
  shows "\<exists>s. main_block c n s0 = (Some IndexError, s) \<and>
           length (rows_since s0 s) = 6 * length delays"
proof -
  let ?K = "6 * length delays"
  from io up have "\<exists>s. for_loop (main_trial c) [0..<?K] s0 = (None, s)"
    by (intro main_loop_completes) auto
  then obtain s where run: "for_loop (main_trial c) [0..<?K] s0 = (None, s)" by blast
  from n have lt: "?K < nat n" by simp
  then have "[0..<nat n] = [0..<?K] @ [?K..<nat n]"
    using upt_add_eq_append [of 0 ?K "nat n - ?K"] by simp
  with lt have "[0..<nat n] = [0..<?K] @ ?K # [Suc ?K..<nat n]"
    by (simp add: upt_conv_Cons)
  moreover have "main_trial c ?K s = (Some IndexError, s)"
    by (rule main_trial_IndexError) simp_all
  ultimately have "for_loop (main_trial c) [0..<nat n] s0 = (Some IndexError, s)"
    using run by (simp add: for_loop_append)
  with rows_since_length [OF run] show ?thesis
    by (simp add: main_block_def py_range_def)
qed

text \<open>
  C3. Nothing checks the trial count before the main phase. With collaborators that do
  not fail, the main block started with a count of at most 42 (six times the number of
  delays) runs that many trials and ends normally, whether or not the count is a
  multiple of 6; started with a larger count it runs 42 trials and then stops with
  \<^verbatim>\<open>IndexError\<close> at \<^verbatim>\<open>delays[7]\<close>, the 42 rows recorded.
\<close>

theorem no_alignment_check:
  assumes "\<forall>t. main_io c t \<noteq> None" and "\<forall>e d r. update c e d r \<noteq> None"
  shows "6 * length delays = 42 \<and>
     (n \<le> 42 \<longrightarrow>
        (\<exists>s. main_block c n s0 = (None, s) \<and> length (rows_since s0 s) = nat n)) \<and>
     (42 < n \<longrightarrow>
        (\<exists>s. main_block c n s0 = (Some IndexError, s) \<and> length (rows_since s0 s) = 42))"
proof -
  have K: "6 * length delays = 42" by (simp add: delays_def)
  have "\<exists>s. main_block c n s0 = (None, s) \<and> length (rows_since s0 s) = nat n" if "n \<le> 42"
    using assms that by (intro main_block_runs) (simp_all add: K)
  moreover
  have "\<exists>s. main_block c n s0 = (Some IndexError, s) \<and> length (rows_since s0 s) = 42"
    if "42 < n"
    using main_block_overrun [of c n s0] assms that by (simp add: K)
  ultimately show ?thesis using K by blast
qed

theorem no_alignment_check_witness:
  "(\<forall>t. main_io (scripted (\<lambda>t. ''j'')) t \<noteq> None) \<and>
   (\<forall>e d r. update (scripted (\<lambda>t. ''j'')) e d r \<noteq> None) \<and>
   (\<exists>s. main_block (scripted (\<lambda>t. ''j'')) 20 (init_session []) = (None, s) \<and>
        length (rows_since (init_session []) s) = 20) \<and>
   (\<exists>s. main_block (scripted (\<lambda>t. ''j'')) 48 (init_session []) = (Some IndexError, s) \<and>
        length (rows_since (init_session []) s) = 42)"
proof -
  let ?c = "scripted (\<lambda>t. ''j'')"
  let ?init = "init_session [] :: (dd_design \<times> int) list session"
  have h1: "\<forall>t. main_io ?c t \<noteq> None" and h2: "\<forall>e d r. update ?c e d r \<noteq> None"
    by (simp_all add: scripted_def)
  from no_alignment_check [OF h1 h2, of 20 ?init] no_alignment_check [OF h1 h2, of 48 ?init] h1 h2
  show ?thesis by simp
qed

text \<open>
  The default count of 20 trials is not a multiple of 6: the main block is run, 20
  trials long, and ends without an error. On 48 trials, eight blocks for seven delays,
  the main block is run as well and fails only at its 43rd trial.
\<close>

theorem main_phase_not_refused_counterexample:
  "(20::int) mod 6 \<noteq> 0 \<and>
   fst (main_block (scripted (\<lambda>t. ''j'')) 20 (init_session [])) = None \<and>
   length (rows_since (init_session [])
     (snd (main_block (scripted (\<lambda>t. ''j'')) 20 (init_session [])))) = 20 \<and>
   length delays < 48 div 6 \<and>
   fst (main_block (scripted (\<lambda>t. ''j'')) 48 (init_session [])) = Some IndexError \<and>
   length (rows_since (init_session [])
     (snd (main_block (scripted (\<lambda>t. ''j'')) 48 (init_session [])))) = 42"
proof -
  let ?c = "scripted (\<lambda>t. ''j'')"
  let ?init = "init_session [] :: (dd_design \<times> int) list session"
  have io: "\<And>t. main_io ?c t \<noteq> None" and up: "\<And>e d r. update ?c e d r \<noteq> None"
    by (simp_all add: scripted_def)
  have K: "6 * length delays = 42" by (simp add: delays_def)
  have "\<exists>s. main_block ?c 20 ?init = (None, s) \<and> length (rows_since ?init s) = nat 20"
    using io up by (rule main_block_runs) (simp add: K)
  moreover have "\<exists>s. main_block ?c 48 ?init = (Some IndexError, s) \<and>
      length (rows_since ?init s) = 6 * length delays"
    using io up by (rule main_block_overrun) (simp add: K)
  ultimately show ?thesis using K by (auto simp: delays_def)
qed

subsection \<open>Columns and rows of the session\<close>

lemma loop_invariant:
  assumes step: "\<And>t s s'. b t s = (None, s') \<Longrightarrow> P t s \<Longrightarrow> P (Suc t) s'"
    and init: "P 0 start"
  shows "for_loop b [0..<n] start = (None, s) \<Longrightarrow> P n s"
proof (induction n arbitrary: s)
  case 0
  with init show ?case by simp
next
  case (Suc n)
  from for_loop_SucD [OF Suc.prems] obtain s1 where
    "for_loop b [0..<n] start = (None, s1)" "b n s1 = (None, s)" by blast
  with Suc.IH step show ?case by blast
qed

lemma columns_append_prac:
  "columns df = columns_decl \<Longrightarrow> columns (df_append df (prac_series t d out)) = columns_decl"
  by (simp add: df_append_def prac_series_def columns_decl_def case_prod_beta)

lemma columns_append_main:
  "columns df = columns_decl \<Longrightarrow> columns (df_append df (main_series t d out pm psd)) = spec_columns"
  by (simp add: df_append_def main_series_def columns_decl_def spec_columns_def case_prod_beta)

lemma columns_append_main':
  "columns df = spec_columns \<Longrightarrow> columns (df_append df (main_series t d out pm psd)) = spec_columns"
  by (simp add: df_append_def main_series_def spec_columns_def case_prod_beta)

lemma is_prac_row_series: "is_prac_row (map_of (prac_series t d out))"
  by (simp add: is_prac_row_def populated_def blank_def spec_columns_def posterior_labels_def
      prac_series_def case_prod_beta)

lemma is_main_row_series: "is_main_row (map_of (main_series t d out pm psd))"
  by (simp add: is_main_row_def populated_def spec_columns_def main_series_def case_prod_beta)

lemma columns_append_and_save [simp]:
  "columns (df_data (append_and_save row s)) = columns (df_append (df_data s) row)"
  by (simp add: append_and_save_def Let_def)

lemma practice_facts:
  assumes "for_loop (prac_trial c) [0..<k] (init_session e0) = (None, s)"
  shows "columns (df_data s) = columns_decl \<and> length (rows (df_data s)) = k \<and>
         list_all is_prac_row (rows (df_data s)) \<and> engine s = e0 \<and>
         path_output s = (if k = 0 then None else Some (to_csv (df_data s)))"
proof (rule loop_invariant [where b = "prac_trial c" and start = "init_session e0" and
      P = "\<lambda>k s. columns (df_data s) = columns_decl \<and> length (rows (df_data s)) = k \<and>
         list_all is_prac_row (rows (df_data s)) \<and> engine s = e0 \<and>
         path_output s = (if k = 0 then None else Some (to_csv (df_data s)))", OF _ _ assms])
  show "columns (df_data (init_session e0)) = columns_decl \<and>
    length (rows (df_data (init_session e0))) = 0 \<and>
    list_all is_prac_row (rows (df_data (init_session e0))) \<and> engine (init_session e0) = e0 \<and>
    path_output (init_session e0) =
      (if (0::nat) = 0 then None else Some (to_csv (df_data (init_session e0))))"
    by (simp add: init_session_def)
next
  fix t and s s' :: "'a session"
  assume step: "prac_trial c t s = (None, s')"
    and inv: "columns (df_data s) = columns_decl \<and> length (rows (df_data s)) = t \<and>
         list_all is_prac_row (rows (df_data s)) \<and> engine s = e0 \<and>
         path_output s = (if t = 0 then None else Some (to_csv (df_data s)))"
  from step obtain d io where
    s': "s' = append_and_save (prac_series t d (run_trial d io))
            (s\<lparr>design := Some d, response := Some (fst (snd (snd (run_trial d io))))\<rparr>)"
    by (rule prac_trial_ok)
  from inv show "columns (df_data s') = columns_decl \<and> length (rows (df_data s')) = Suc t \<and>
         list_all is_prac_row (rows (df_data s')) \<and> engine s' = e0 \<and>
         path_output s' = (if Suc t = 0 then None else Some (to_csv (df_data s')))"
    unfolding s' by (simp add: columns_append_prac is_prac_row_series)
qed

lemma main_facts:
  assumes run: "for_loop (main_trial c) [0..<k] sp = (None, s)"
    and cols: "columns (df_data sp) = columns_decl"
  shows "columns (df_data s) = (if k = 0 then columns_decl else spec_columns) \<and>
         rows (df_data s) = rows (df_data sp) @ rows_since sp s \<and>
         length (rows_since sp s) = k \<and>
         list_all is_main_row (rows_since sp s) \<and>
         path_output s = (if k = 0 then path_output sp else Some (to_csv (df_data s)))"
proof (rule loop_invariant [where b = "main_trial c" and start = sp and
      P = "\<lambda>k s. columns (df_data s) = (if k = 0 then columns_decl else spec_columns) \<and>
         rows (df_data s) = rows (df_data sp) @ rows_since sp s \<and>
         length (rows_since sp s) = k \<and>
         list_all is_main_row (rows_since sp s) \<and>
         path_output s = (if k = 0 then path_output sp else Some (to_csv (df_data s)))",
      OF _ _ run])
  show "columns (df_data sp) = (if (0::nat) = 0 then columns_decl else spec_columns) \<and>
    rows (df_data sp) = rows (df_data sp) @ rows_since sp sp \<and>
    length (rows_since sp sp) = 0 \<and>
    list_all is_main_row (rows_since sp sp) \<and>
    path_output sp = (if (0::nat) = 0 then path_output sp else Some (to_csv (df_data sp)))"
    by (simp add: cols rows_since_def)
next
  fix t and s s' :: "'a session"
  assume step: "main_trial c t s = (None, s')"
    and inv: "columns (df_data s) = (if t = 0 then columns_decl else spec_columns) \<and>
         rows (df_data s) = rows (df_data sp) @ rows_since sp s \<and>
         length (rows_since sp s) = t \<and>
         list_all is_main_row (rows_since sp s) \<and>
         path_output s = (if t = 0 then path_output sp else Some (to_csv (df_data s)))"
  from step obtain d dlt io e' where
    s': "s' = append_and_save (main_series t d (run_trial d io) (post_mean c e') (post_sd c e'))
            (s\<lparr>design := Some d, delta := dlt,
               response := Some (fst (snd (snd (run_trial d io)))), engine := e'\<rparr>)"
    by (rule main_trial_ok)
  let ?new = "map_of (main_series t d (run_trial d io) (post_mean c e') (post_sd c e'))"
  from inv have rows': "rows (df_data s') = rows (df_data sp) @ (rows_since sp s @ [?new])"
    unfolding s' by simp
  then have since: "rows_since sp s' = rows_since sp s @ [?new]"
    by (simp add: rows_since_def)
  have col: "columns (df_data s') = spec_columns"
    using inv unfolding s' by (simp add: columns_append_main columns_append_main' split: if_splits)
  have "path_output s' = Some (to_csv (df_data s'))"
    unfolding s' by simp
  with inv since col rows'
  show "columns (df_data s') = (if Suc t = 0 then columns_decl else spec_columns) \<and>
         rows (df_data s') = rows (df_data sp) @ rows_since sp s' \<and>
         length (rows_since sp s') = Suc t \<and>
         list_all is_main_row (rows_since sp s') \<and>
         path_output s' = (if Suc t = 0 then path_output sp else Some (to_csv (df_data s')))"
    by (simp add: is_main_row_series)
qed


lemma session_stop:
  assumes "run_session c n_prac n_trial e0 = (err, s)"
  obtains p sp m sm where
    "p \<le> nat n_prac" "for_loop (prac_trial c) [0..<p] (init_session e0) = (None, sp)"
    "m \<le> nat n_trial" "for_loop (main_trial c) [0..<m] sp = (None, sm)"
    "df_data s = df_data sm" "path_output s = path_output sm"
    "0 < m \<Longrightarrow> p = nat n_prac"
    "err = None \<Longrightarrow> p = nat n_prac \<and> m = nat n_trial"
proof (cases "practice c n_prac (init_session e0)")
  case (Pair r sp')
  show ?thesis
  proof (cases r)
    case (Some e)
    with Pair assms have err: "err = Some e" and s: "s = sp'"
      by (simp_all add: run_session_def)
    from Pair Some have "for_loop (prac_trial c) [0..<nat n_prac] (init_session e0) = (Some e, sp')"
      by (simp add: practice_def py_range_def)
    from for_loop_err [OF this] obtain k sk where k: "k < nat n_prac"
      "for_loop (prac_trial c) [0..<k] (init_session e0) = (None, sk)"
      "prac_trial c k sk = (Some e, sp')"
      by blast
    from prac_trial_err [OF k(3)] s have "df_data s = df_data sk" "path_output s = path_output sk"
      by simp_all
    with k err that [of k sk 0 sk] show ?thesis by simp
  next
    case None
    with Pair assms have main: "main_block c n_trial sp' = (err, s)"
      by (simp add: run_session_def)
    from Pair None have prac: "for_loop (prac_trial c) [0..<nat n_prac] (init_session e0) = (None, sp')"
      by (simp add: practice_def py_range_def)
    from main obtain k sk where k: "k \<le> nat n_trial"
      "for_loop (main_trial c) [0..<k] sp' = (None, sk)"
      "df_data s = df_data sk" "path_output s = path_output sk"
      "err = None \<longrightarrow> k = nat n_trial"
      by (rule main_block_stop) auto
    with prac that [of "nat n_prac" sp' k sk] show ?thesis by simp
  qed
qed

lemma persisted_prefix:
  assumes prac: "for_loop (prac_trial c) [0..<p] (init_session e0) = (None, sp)"
    and main: "for_loop (main_trial c) [0..<m] sp = (None, sm)"
  shows "persisted sm = body (to_csv (df_data sm)) \<and> length (rows (df_data sm)) = p + m \<and>
         (rows (df_data sm) \<noteq> [] \<longrightarrow> path_output sm = Some (to_csv (df_data sm)))"
proof -
  note P = practice_facts [OF prac]
  then have cols: "columns (df_data sp) = columns_decl" by simp
  note M = main_facts [OF main cols]
  show ?thesis
  proof (cases "m = 0")
    case True
    with main have "sm = sp" by simp
    with P True show ?thesis
      by (auto simp: persisted_def to_csv_def)
  next
    case False
    with M P show ?thesis
      by (simp add: persisted_def)
  qed
qed

subsection \<open>The file after every trial\<close>

lemma session_file:
  assumes "run_session c n_prac n_trial e0 = (err, s)"
  shows "persisted s = body (to_csv (df_data s)) \<and>
         (rows (df_data s) \<noteq> [] \<longrightarrow> path_output s = Some (to_csv (df_data s))) \<and>
         (err = None \<longrightarrow> length (persisted s) = nat n_prac + nat n_trial)"
proof -
  from assms obtain p sp m sm where
    prac: "for_loop (prac_trial c) [0..<p] (init_session e0) = (None, sp)"
    and main: "for_loop (main_trial c) [0..<m] sp = (None, sm)"
    and eq: "df_data s = df_data sm" "path_output s = path_output sm"
    and fin: "err = None \<longrightarrow> p = nat n_prac \<and> m = nat n_trial"
    by (rule session_stop) auto
  from persisted_prefix [OF prac main] eq fin show ?thesis
    by (auto simp: persisted_def to_csv_def)
qed





subsection \<open>Posterior summaries in the rows\<close>

lemma prac_trial_update_irrelevant:
  "prac_trial (c\<lparr>update := u\<rparr>) = prac_trial c"
  by (auto simp: prac_trial_def fun_eq_iff Let_def split: option.splits)

lemma session_rows:
  assumes "run_session c n_prac n_trial e0 = (err, s)"
  obtains P M where "rows (df_data s) = P @ M" "list_all is_prac_row P" "list_all is_main_row M"
    "length P \<le> nat n_prac" "length M \<le> nat n_trial"
    "M \<noteq> [] \<Longrightarrow> length P = nat n_prac \<and> columns (df_data s) = spec_columns"
    "M = [] \<Longrightarrow> columns (df_data s) = columns_decl"
    "err = None \<Longrightarrow> length P = nat n_prac \<and> length M = nat n_trial"
proof -
  from assms obtain p sp m sm where
    p: "p \<le> nat n_prac" and prac: "for_loop (prac_trial c) [0..<p] (init_session e0) = (None, sp)"
    and m: "m \<le> nat n_trial" and main: "for_loop (main_trial c) [0..<m] sp = (None, sm)"
    and eq: "df_data s = df_data sm"
    and pos: "0 < m \<longrightarrow> p = nat n_prac"
    and fin: "err = None \<longrightarrow> p = nat n_prac \<and> m = nat n_trial"
    by (rule session_stop) auto
  note P = practice_facts [OF prac]
  then have cols: "columns (df_data sp) = columns_decl" by simp
  note M = main_facts [OF main cols]
  show ?thesis
  proof (rule that [of "rows (df_data sp)" "rows_since sp sm"])
    show "rows (df_data s) = rows (df_data sp) @ rows_since sp sm"
      using M eq by simp
    show "list_all is_prac_row (rows (df_data sp))" using P by simp
    show "list_all is_main_row (rows_since sp sm)" using M by simp
    show "length (rows (df_data sp)) \<le> nat n_prac" using P p by simp
    show "length (rows_since sp sm) \<le> nat n_trial" using M m by simp
    show "length (rows (df_data sp)) = nat n_prac \<and> columns (df_data s) = spec_columns"
      if "rows_since sp sm \<noteq> []"
    proof -
      from that M have "0 < m" by auto
      with pos P M eq show ?thesis by simp
    qed
    show "columns (df_data s) = columns_decl" if "rows_since sp sm = []"
    proof -
      from that M have "m = 0" by auto
      with M eq show ?thesis by simp
    qed
    show "length (rows (df_data sp)) = nat n_prac \<and> length (rows_since sp sm) = nat n_trial"
      if "err = None"
      using that fin P M by simp
  qed
qed

text \<open>
  C5. A main trial passes the design it presented and the response it received to
  \<^verbatim>\<open>engine.update\<close>, and the four posterior values in its row are read from the
  engine this call returned. The practice loop never uses \<^verbatim>\<open>update\<close>: it runs the
  same whatever \<^verbatim>\<open>update\<close> is and leaves the engine as it found it. In the data
  frame of a session the practice rows come first and have the missing value at the
  four posterior labels; the main rows follow and have a value at all fourteen labels.
\<close>

theorem posterior_after_update:
  "(main_block c (int t) start = (None, s) \<and> main_block c (int (Suc t)) start = (None, s') \<longrightarrow>
      (\<exists>d r. design s' = Some d \<and> response s' = Some r \<and>
         update c (engine s) d r = Some (engine s') \<and>
         last (rows (df_data s')) ''t_ll'' = Some (CNum (t_ll d)) \<and>
         last (rows (df_data s')) ''r_ss'' = Some (CNum (r_ss d)) \<and>
         last (rows (df_data s')) ''response'' = Some (CInt r) \<and>
         last (rows (df_data s')) ''mean_k'' = Some (CNum (fst (post_mean c (engine s')))) \<and>
         last (rows (df_data s')) ''mean_tau'' = Some (CNum (snd (post_mean c (engine s')))) \<and>
         last (rows (df_data s')) ''sd_k'' = Some (CNum (fst (post_sd c (engine s')))) \<and>
         last (rows (df_data s')) ''sd_tau'' = Some (CNum (snd (post_sd c (engine s')))))) \<and>
   practice (c\<lparr>update := u\<rparr>) n (init_session e0) = practice c n (init_session e0) \<and>
   engine (snd (practice c n (init_session e0))) = e0 \<and>
   (run_session c n_prac n_trial e0 = (err, sf) \<longrightarrow>
      (\<exists>P M. rows (df_data sf) = P @ M \<and>
         list_all is_prac_row P \<and> list_all (blank posterior_labels) P \<and>
         list_all is_main_row M \<and> list_all (populated posterior_labels) M \<and>
         (err = None \<longrightarrow> length P = nat n_prac \<and> length M = nat n_trial)))"
proof -
  have A: "\<exists>d r. design s' = Some d \<and> response s' = Some r \<and>
         update c (engine s) d r = Some (engine s') \<and>
         last (rows (df_data s')) ''t_ll'' = Some (CNum (t_ll d)) \<and>
         last (rows (df_data s')) ''r_ss'' = Some (CNum (r_ss d)) \<and>
         last (rows (df_data s')) ''response'' = Some (CInt r) \<and>
         last (rows (df_data s')) ''mean_k'' = Some (CNum (fst (post_mean c (engine s')))) \<and>
         last (rows (df_data s')) ''mean_tau'' = Some (CNum (snd (post_mean c (engine s')))) \<and>
         last (rows (df_data s')) ''sd_k'' = Some (CNum (fst (post_sd c (engine s')))) \<and>
         last (rows (df_data s')) ''sd_tau'' = Some (CNum (snd (post_sd c (engine s'))))"
    if pre: "main_block c (int t) start = (None, s)"
      and all: "main_block c (int (Suc t)) start = (None, s')"
  proof -
    from pre all have "for_loop (main_trial c) [0..<t] start = (None, s)"
      "for_loop (main_trial c) [0..<Suc t] start = (None, s')"
      by (simp_all only: main_block_nat)
    with for_loop_SucD [of "main_trial c" t start s'] have "main_trial c t s = (None, s')"
      by simp
    then obtain d dlt io e' where
      "update c (engine s) d (fst (snd (snd (run_trial d io)))) = Some e'"
      "s' = append_and_save (main_series t d (run_trial d io) (post_mean c e') (post_sd c e'))
            (s\<lparr>design := Some d, delta := dlt,
               response := Some (fst (snd (snd (run_trial d io)))), engine := e'\<rparr>)"
      by (rule main_trial_ok)
    then show ?thesis by simp
  qed
  have B: "practice (c\<lparr>update := u\<rparr>) n (init_session e0) = practice c n (init_session e0)"
    by (simp add: practice_def prac_trial_update_irrelevant)
  have C: "engine (snd (practice c n (init_session e0))) = e0"
  proof (cases "practice c n (init_session e0)")
    case (Pair r sp)
    show ?thesis
    proof (cases r)
      case None
      with Pair have "for_loop (prac_trial c) [0..<nat n] (init_session e0) = (None, sp)"
        by (simp add: practice_def py_range_def)
      from practice_facts [OF this] Pair show ?thesis by simp
    next
      case (Some e)
      with Pair have "for_loop (prac_trial c) [0..<nat n] (init_session e0) = (Some e, sp)"
        by (simp add: practice_def py_range_def)
      from for_loop_err [OF this] obtain k sk where
        "for_loop (prac_trial c) [0..<k] (init_session e0) = (None, sk)"
        "prac_trial c k sk = (Some e, sp)"
        by blast
      with practice_facts [of c k e0 sk] prac_trial_err [of c k sk e sp] Pair show ?thesis
        by simp
    qed
  qed
  have D: "\<exists>P M. rows (df_data sf) = P @ M \<and>
         list_all is_prac_row P \<and> list_all (blank posterior_labels) P \<and>
         list_all is_main_row M \<and> list_all (populated posterior_labels) M \<and>
         (err = None \<longrightarrow> length P = nat n_prac \<and> length M = nat n_trial)"
    if "run_session c n_prac n_trial e0 = (err, sf)"
  proof -
    from that obtain P M where PM: "rows (df_data sf) = P @ M" "list_all is_prac_row P"
      "list_all is_main_row M" "err = None \<longrightarrow> length P = nat n_prac \<and> length M = nat n_trial"
      by (rule session_rows) auto
    from PM(2) have "list_all (blank posterior_labels) P"
      by (simp add: list_all_iff is_prac_row_def)
    moreover from PM(3) have "list_all (populated posterior_labels) M"
      by (simp add: list_all_iff is_main_row_def populated_def spec_columns_def posterior_labels_def)
    ultimately show ?thesis using PM by blast
  qed
  from A B C D show ?thesis by blast
qed

theorem posterior_after_update_witness:
  "fst (main_block (scripted (\<lambda>t. ''j'')) 2 (init_session [])) = None \<and>
   engine (snd (main_block (scripted (\<lambda>t. ''j'')) 2 (init_session []))) =
     [(\<lparr>t_ss = 0, t_ll = 1, r_ss = 400, r_ll = 800\<rparr>, 1),
      (\<lparr>t_ss = 0, t_ll = 1, r_ss = 600, r_ll = 800\<rparr>, 1)] \<and>
   last (rows (df_data (snd (main_block (scripted (\<lambda>t. ''j'')) 2 (init_session [])))))
     ''mean_k'' = Some (CNum 2) \<and>
   fst (run_session (scripted (\<lambda>t. ''j'')) 1 1 []) = None \<and>
   (\<exists>P M. rows (df_data (snd (run_session (scripted (\<lambda>t. ''j'')) 1 1 []))) = P @ M \<and>
      length P = 1 \<and> length M = 1 \<and>
      list_all (blank posterior_labels) P \<and> list_all (populated posterior_labels) M)"
proof -
  let ?c = "scripted (\<lambda>t. ''j'')"
  let ?init = "init_session [] :: (dd_design \<times> int) list session"
  let ?a = "snd (main_block ?c 1 ?init)"
  let ?b = "snd (main_block ?c 2 ?init)"
  let ?f = "snd (run_session ?c 1 1 [])"
  have ok: "fst (main_block ?c 1 ?init) = None" "fst (main_block ?c 2 ?init) = None"
    "fst (run_session ?c 1 1 []) = None"
    by code_simp+
  then have h: "main_block ?c (int 1) ?init = (None, ?a)"
    "main_block ?c (int (Suc 1)) ?init = (None, ?b)"
    "run_session ?c 1 1 [] = (None, ?f)"
    by (simp_all add: prod_eq_iff)
  note T = posterior_after_update [where c = ?c and t = 1 and start = ?init and s = ?a
      and s' = ?b and n_prac = 1 and n_trial = 1 and ?e0.0 = "[]" and err = None and sf = ?f]
  from T h(1,2) obtain d r where dr: "design ?b = Some d" "response ?b = Some r"
    "update ?c (engine ?a) d r = Some (engine ?b)"
    "last (rows (df_data ?b)) ''mean_k'' = Some (CNum (fst (post_mean ?c (engine ?b))))"
    by blast
  have v: "engine ?a = [(\<lparr>t_ss = 0, t_ll = 1, r_ss = 400, r_ll = 800\<rparr>, 1)]"
    "design ?b = Some \<lparr>t_ss = 0, t_ll = 1, r_ss = 600, r_ll = 800\<rparr>" "response ?b = Some 1"
    by code_simp+
  from dr(1,2,3) v have e: "engine ?b =
     [(\<lparr>t_ss = 0, t_ll = 1, r_ss = 400, r_ll = 800\<rparr>, 1),
      (\<lparr>t_ss = 0, t_ll = 1, r_ss = 600, r_ll = 800\<rparr>, 1)]"
    by (simp add: scripted_def)
  with dr(4) have m: "last (rows (df_data ?b)) ''mean_k'' = Some (CNum 2)"
    by (simp add: scripted_def)
  from T h(3) obtain P M where "rows (df_data ?f) = P @ M"
    "list_all (blank posterior_labels) P" "list_all (populated posterior_labels) M"
    "length P = nat 1 \<and> length M = nat 1"
    by blast
  then have "\<exists>P M. rows (df_data ?f) = P @ M \<and> length P = 1 \<and> length M = 1 \<and>
      list_all (blank posterior_labels) P \<and> list_all (populated posterior_labels) M"
    by auto
  with ok e m show ?thesis by blast
qed

subsection \<open>The columns of the output file\<close>

lemma prac_row_not_main: "is_prac_row r \<Longrightarrow> r ''block'' \<noteq> Some (CStr ''main'')"
  by (simp add: is_prac_row_def)

text \<open>
  C10. The file written at the end of a practice trial has the twelve declared columns,
  \<^verbatim>\<open>block\<close> to \<^verbatim>\<open>mean_tau\<close>: \<^verbatim>\<open>sd_k\<close> and \<^verbatim>\<open>sd_tau\<close> are not in its header and
  every line has twelve fields. The file written at the end of a main trial that
  follows the practice phase, the first included, has the fourteen columns: the two
  labels come with the first main row.
\<close>

theorem practice_flush_columns:
  "(practice c (int (Suc k)) (init_session e0) = (None, s) \<longrightarrow>
      (\<exists>f. path_output s = Some f \<and> header f = columns_decl \<and> length (header f) = 12 \<and>
         ''sd_k'' \<notin> set (header f) \<and> ''sd_tau'' \<notin> set (header f) \<and>
         length (body f) = Suc k \<and> list_all (\<lambda>l. length l = 12) (body f))) \<and>
   (practice c n_prac (init_session e0) = (None, sp) \<and>
    main_block c (int (Suc m)) sp = (None, s') \<longrightarrow>
      (\<exists>f. path_output s' = Some f \<and> header f = columns_decl @ [''sd_k'', ''sd_tau''] \<and>
         length (header f) = 14 \<and> list_all (\<lambda>l. length l = 14) (body f)))"
proof -
  have A: "\<exists>f. path_output s = Some f \<and> header f = columns_decl \<and> length (header f) = 12 \<and>
         ''sd_k'' \<notin> set (header f) \<and> ''sd_tau'' \<notin> set (header f) \<and>
         length (body f) = Suc k \<and> list_all (\<lambda>l. length l = 12) (body f)"
    if "practice c (int (Suc k)) (init_session e0) = (None, s)"
  proof -
    from that have "for_loop (prac_trial c) [0..<Suc k] (init_session e0) = (None, s)"
      by (simp only: practice_nat)
    from practice_facts [OF this] have "path_output s = Some (to_csv (df_data s))"
      "columns (df_data s) = columns_decl" "length (rows (df_data s)) = Suc k"
      by simp_all
    then show ?thesis
      by (simp add: to_csv_def list_all_iff) (simp add: columns_decl_def)
  qed
  have B: "\<exists>f. path_output s' = Some f \<and> header f = columns_decl @ [''sd_k'', ''sd_tau''] \<and>
         length (header f) = 14 \<and> list_all (\<lambda>l. length l = 14) (body f)"
    if "practice c n_prac (init_session e0) = (None, sp)"
      and "main_block c (int (Suc m)) sp = (None, s')"
  proof -
    from that(1) have prac: "for_loop (prac_trial c) [0..<nat n_prac] (init_session e0) = (None, sp)"
      by (simp add: practice_def py_range_def)
    from that(2) have main: "for_loop (main_trial c) [0..<Suc m] sp = (None, s')"
      by (simp only: main_block_nat)
    from practice_facts [OF prac] have "columns (df_data sp) = columns_decl" by simp
    from main_facts [OF main this] have "path_output s' = Some (to_csv (df_data s'))"
      "columns (df_data s') = spec_columns"
      by simp_all
    then show ?thesis
      by (simp add: to_csv_def list_all_iff) (simp add: columns_decl_def spec_columns_def)
  qed
  from A B show ?thesis by blast
qed

theorem practice_flush_columns_witness:
  "fst (practice (scripted (\<lambda>t. ''j'')) 2 (init_session [])) = None \<and>
   fst (main_block (scripted (\<lambda>t. ''j'')) 1
     (snd (practice (scripted (\<lambda>t. ''j'')) 2 (init_session [])))) = None \<and>
   map_option header (path_output (snd (practice (scripted (\<lambda>t. ''j'')) 2 (init_session [])))) =
     Some [''block'', ''trial'', ''t_ss'', ''t_ll'', ''r_ss'', ''r_ll'',
           ''is_ll_on_left'', ''key_left'', ''response'', ''rt'', ''mean_k'', ''mean_tau''] \<and>
   map_option header (path_output (snd (main_block (scripted (\<lambda>t. ''j'')) 1
     (snd (practice (scripted (\<lambda>t. ''j'')) 2 (init_session [])))))) =
     Some [''block'', ''trial'', ''t_ss'', ''t_ll'', ''r_ss'', ''r_ll'',
           ''is_ll_on_left'', ''key_left'', ''response'', ''rt'', ''mean_k'', ''mean_tau'',
           ''sd_k'', ''sd_tau'']"
proof -
  let ?c = "scripted (\<lambda>t. ''j'')"
  let ?init = "init_session [] :: (dd_design \<times> int) list session"
  let ?sp = "snd (practice ?c 2 ?init)"
  let ?sm = "snd (main_block ?c 1 ?sp)"
  have ok: "fst (practice ?c 2 ?init) = None" "fst (main_block ?c 1 ?sp) = None"
    by code_simp+
  then have h: "practice ?c (int (Suc 1)) ?init = (None, ?sp)" "practice ?c 2 ?init = (None, ?sp)"
    "main_block ?c (int (Suc 0)) ?sp = (None, ?sm)"
    by (simp_all add: prod_eq_iff)
  note T = practice_flush_columns [where c = ?c and k = 1 and ?e0.0 = "[]" and s = ?sp
      and n_prac = 2 and sp = ?sp and m = 0 and s' = ?sm]
  from T h(1) obtain f where "path_output ?sp = Some f" "header f = columns_decl"
    by blast
  then have A: "map_option header (path_output ?sp) = Some columns_decl"
    by simp
  from T h(2,3) obtain g where "path_output ?sm = Some g"
    "header g = columns_decl @ [''sd_k'', ''sd_tau'']"
    by blast
  then have B: "map_option header (path_output ?sm) = Some (columns_decl @ [''sd_k'', ''sd_tau''])"
    by simp
  from ok A B show ?thesis by (simp add: columns_decl_def)
qed

text \<open>
  C7. Once a main row has been recorded, the file of a session has the fourteen columns
  \<^verbatim>\<open>block\<close> to \<^verbatim>\<open>sd_tau\<close> in their order and one line per recorded trial: the
  practice rows, blank at the four posterior columns, then the main rows, filled at all
  fourteen.
\<close>

theorem output_table:
  assumes "run_session c n_prac n_trial e0 = (err, s)"
    and "list_ex (\<lambda>r. r ''block'' = Some (CStr ''main'')) (rows (df_data s))"
  shows "path_output s =
           Some \<lparr>header = spec_columns,
                 body = map (\<lambda>r. map r spec_columns) (rows (df_data s))\<rparr> \<and>
         (\<exists>P M. rows (df_data s) = P @ M \<and> list_all is_prac_row P \<and> list_all is_main_row M \<and>
            length P = nat n_prac \<and> M \<noteq> [] \<and>
            (err = None \<longrightarrow> length M = nat n_trial))"
proof -
  from assms(1) obtain P M where PM: "rows (df_data s) = P @ M" "list_all is_prac_row P"
    "list_all is_main_row M"
    "M \<noteq> [] \<longrightarrow> length P = nat n_prac \<and> columns (df_data s) = spec_columns"
    "err = None \<longrightarrow> length P = nat n_prac \<and> length M = nat n_trial"
    by (rule session_rows) auto
  from assms(2) PM(1,2) have ne: "M \<noteq> []"
    by (auto simp: list_ex_iff list_all_iff dest: prac_row_not_main)
  with PM(1) have "rows (df_data s) \<noteq> []" by simp
  with session_file [OF assms(1)] have "path_output s = Some (to_csv (df_data s))"
    by simp
  with ne PM show ?thesis
    by (auto simp: to_csv_def)
qed

theorem output_table_witness:
  "fst (run_session (scripted (\<lambda>t. ''j'')) 1 2 []) = None \<and>
   list_ex (\<lambda>r. r ''block'' = Some (CStr ''main''))
     (rows (df_data (snd (run_session (scripted (\<lambda>t. ''j'')) 1 2 [])))) \<and>
   map_option header (path_output (snd (run_session (scripted (\<lambda>t. ''j'')) 1 2 []))) =
     Some [''block'', ''trial'', ''t_ss'', ''t_ll'', ''r_ss'', ''r_ll'',
           ''is_ll_on_left'', ''key_left'', ''response'', ''rt'',
           ''mean_k'', ''mean_tau'', ''sd_k'', ''sd_tau''] \<and>
   map_option body (path_output (snd (run_session (scripted (\<lambda>t. ''j'')) 1 2 []))) =
     Some (map (\<lambda>r. map r spec_columns)
       (rows (df_data (snd (run_session (scripted (\<lambda>t. ''j'')) 1 2 [])))))"
proof -
  let ?c = "scripted (\<lambda>t. ''j'')"
  let ?f = "snd (run_session ?c 1 2 [])"
  have ok: "fst (run_session ?c 1 2 []) = None"
    by code_simp
  then have h1: "run_session ?c 1 2 [] = (None, ?f)"
    by (simp add: prod_eq_iff)
  have h2: "list_ex (\<lambda>r. r ''block'' = Some (CStr ''main'')) (rows (df_data ?f))"
    by code_simp
  from output_table [OF h1 h2]
  have "path_output ?f =
      Some \<lparr>header = spec_columns, body = map (\<lambda>r. map r spec_columns) (rows (df_data ?f))\<rparr>"
    by blast
  with ok h2 show ?thesis by (simp add: spec_columns_def)
qed

text \<open>
  Before that the file has the twelve declared columns only. A session of one practice
  trial and no main trial ends normally with such a file; so does a session whose first
  main trial raises.
\<close>

theorem practice_only_file_counterexample:
  "fst (run_session (scripted (\<lambda>t. ''j'')) 1 0 []) = None \<and>
   map_option header (path_output (snd (run_session (scripted (\<lambda>t. ''j'')) 1 0 []))) =
     Some [''block'', ''trial'', ''t_ss'', ''t_ll'', ''r_ss'', ''r_ll'',
           ''is_ll_on_left'', ''key_left'', ''response'', ''rt'', ''mean_k'', ''mean_tau''] \<and>
   fst (run_session (presenter_fails None (Some 0) (scripted (\<lambda>t. ''j''))) 1 20 []) =
     Some CollaboratorError \<and>
   map_option header (path_output
     (snd (run_session (presenter_fails None (Some 0) (scripted (\<lambda>t. ''j''))) 1 20 []))) =
     Some [''block'', ''trial'', ''t_ss'', ''t_ll'', ''r_ss'', ''r_ll'',
           ''is_ll_on_left'', ''key_left'', ''response'', ''rt'', ''mean_k'', ''mean_tau''] \<and>
   columns_decl \<noteq> spec_columns"
  by code_simp

subsection \<open>The arithmetic is exact\<close>

text \<open>
  After every main trial the reward of the smaller-sooner option and the step size are
  integer multiples of \<open>1/32\<close>, the reward below 800 in magnitude and the step size at
  most 200. Such numbers, their sums and differences and their halves down to
  \<open>200 / 64\<close> are binary64 values, so the floating-point operations of the source
  compute them without rounding.
\<close>

lemma main_inv_exact:
  assumes "main_inv i s" and "design s = Some d"
  shows "r_ss d * 32 \<in> \<int> \<and> delta s * 32 \<in> \<int> \<and> \<bar>r_ss d\<bar> < 800 \<and> 0 < delta s \<and> delta s \<le> 200"
proof -
  let ?k = "i mod 6"
  from assms have inv: "delta s = 200 / 2 ^ ?k"
    "\<bar>r_ss d - 400\<bar> \<le> 400 - 400 / 2 ^ ?k" "r_ss d * 2 ^ ?k \<in> \<int>"
    by (auto simp: main_inv_def split: option.splits)
  have k: "?k \<le> 5" by simp
  then have pw: "(32::rat) = 2 ^ ?k * 2 ^ (5 - ?k)"
    by (simp flip: power_add)
  have "(r_ss d * 2 ^ ?k) * 2 ^ (5 - ?k) \<in> \<int>"
    by (rule Ints_mult [OF inv(3)]) simp
  moreover have "(r_ss d * 2 ^ ?k) * 2 ^ (5 - ?k) = r_ss d * 32"
    by (simp only: pw mult.assoc)
  ultimately have A: "r_ss d * 32 \<in> \<int>" by (simp only:)
  have eq: "delta s * 32 = 200 * 2 ^ (5 - ?k)"
    by (simp only: pw inv(1)) simp
  have B: "delta s * 32 \<in> \<int>"
    unfolding eq by (rule Ints_mult) simp_all
  have "(0::rat) < 400 / 2 ^ ?k" by simp
  with inv(2) have C: "\<bar>r_ss d\<bar> < 800"
    by linarith
  have "(1::rat) \<le> 2 ^ ?k" by simp
  then have "(200::rat) / 2 ^ ?k \<le> 200"
    by (simp add: divide_le_eq)
  moreover have "(0::rat) < 200 / 2 ^ ?k" by simp
  ultimately have D: "0 < delta s \<and> delta s \<le> 200"
    unfolding inv(1) by blast
  from A B C D show ?thesis by blast
qed

end
